theory Spec2Isabelle
  imports Main
begin

section \<open>Values of the JavaScript runtime\<close>

text \<open>
  The admin client (\<^verbatim>\<open>src/lib/api.ts\<close>) handles values that come out of
  \<^verbatim>\<open>response.json()\<close> and \<^verbatim>\<open>localStorage.getItem\<close>, which TypeScript types
  as \<^verbatim>\<open>any\<close> and \<^verbatim>\<open>string | null\<close>. They are modelled by one datatype of
  JavaScript values. A number is carried by its decimal form, the text that the conversion
  of a number to a string gives for it (\<^verbatim>\<open>0\<close> for both zeros, \<^verbatim>\<open>0.5\<close>, \<^verbatim>\<open>1e+21\<close>): the
  client never computes with a number of a JSON body, it only tests it and turns it into a
  string. An object is the list of its own properties, each key once.
\<close>

datatype js =
    JUndefined
  | JNull
  | JBool bool
  | JNum string
  | JStr string
  | JArr "js list"
  | JObj "(string \<times> js) list"

text \<open>
  What an \<^verbatim>\<open>async\<close> function can reject with: the client's own
  \<^verbatim>\<open>AdminApiError(message, status)\<close>, a rejected \<^verbatim>\<open>fetch\<close> (the transport failed),
  a rejected \<^verbatim>\<open>response.json()\<close> (the body is not JSON), and the \<^verbatim>\<open>TypeError\<close> of a
  property read on \<^verbatim>\<open>null\<close> or \<^verbatim>\<open>undefined\<close> and of the string conversion of a value
  that has no string form.
\<close>

datatype error =
    AdminApiError string nat
  | NetworkError
  | JsonError
  | TypeError

text \<open>
  Truthiness, as \<^verbatim>\<open>if (v)\<close>, \<^verbatim>\<open>!v\<close> and \<^verbatim>\<open>v || w\<close> test it. The falsy numbers are the
  zeros and \<^verbatim>\<open>NaN\<close>.
\<close>

fun truthy :: "js \<Rightarrow> bool" where
  "truthy JUndefined = False"
| "truthy JNull = False"
| "truthy (JBool b) = b"
| "truthy (JNum n) = (n \<noteq> ''0'' \<and> n \<noteq> ''NaN'')"
| "truthy (JStr s) = (s \<noteq> [])"
| "truthy (JArr xs) = True"
| "truthy (JObj kvs) = True"

definition js_or :: "js \<Rightarrow> js \<Rightarrow> js" where
  "js_or v w = (if truthy v then v else w)"

text \<open>
  A property read \<^verbatim>\<open>v.k\<close>: it throws on \<^verbatim>\<open>null\<close> and \<^verbatim>\<open>undefined\<close>, finds an own
  property of an object, and is \<^verbatim>\<open>undefined\<close> otherwise (none of the keys the client reads,
  \<^verbatim>\<open>detail\<close>, \<^verbatim>\<open>access_token\<close>, \<^verbatim>\<open>refresh_token\<close>, \<^verbatim>\<open>user\<close>, \<^verbatim>\<open>id\<close>, \<^verbatim>\<open>email\<close>,
  \<^verbatim>\<open>name\<close>, \<^verbatim>\<open>is_superuser\<close>, is a built-in property of a string, number, boolean or
  array).
\<close>

fun get_prop :: "js \<Rightarrow> string \<Rightarrow> error + js" where
  "get_prop JUndefined k = Inl TypeError"
| "get_prop JNull k = Inl TypeError"
| "get_prop (JObj kvs) k = Inr (case map_of kvs k of None \<Rightarrow> JUndefined | Some v \<Rightarrow> v)"
| "get_prop (JBool b) k = Inr JUndefined"
| "get_prop (JNum n) k = Inr JUndefined"
| "get_prop (JStr s) k = Inr JUndefined"
| "get_prop (JArr xs) k = Inr JUndefined"

text \<open>
  String conversion, as template literals, \<^verbatim>\<open>localStorage.setItem\<close> and the
  \<^verbatim>\<open>Error\<close> constructor apply it to a value that is not a string already. An array is
  joined with commas, \<^verbatim>\<open>null\<close> and \<^verbatim>\<open>undefined\<close> elements giving the empty string. An
  object goes through its \<^verbatim>\<open>toString\<close>: the inherited one gives \<^verbatim>\<open>[object Object]\<close>; an own
  property \<^verbatim>\<open>toString\<close> of a parsed body is never a function, \<^verbatim>\<open>valueOf\<close> then gives no
  primitive either, and the conversion throws a \<^verbatim>\<open>TypeError\<close>.
\<close>

fun join_comma :: "string list \<Rightarrow> string" where
  "join_comma [] = []"
| "join_comma [s] = s"
| "join_comma (s # t # ts) = s @ '','' @ join_comma (t # ts)"

fun all_strings :: "(error + string) list \<Rightarrow> error + string list" where
  "all_strings [] = Inr []"
| "all_strings (Inl e # rs) = Inl e"
| "all_strings (Inr s # rs) = (case all_strings rs of Inl e \<Rightarrow> Inl e | Inr ss \<Rightarrow> Inr (s # ss))"

fun to_string :: "js \<Rightarrow> error + string" where
  "to_string JUndefined = Inr ''undefined''"
| "to_string JNull = Inr ''null''"
| "to_string (JBool b) = Inr (if b then ''true'' else ''false'')"
| "to_string (JNum n) = Inr n"
| "to_string (JStr s) = Inr s"
| "to_string (JArr xs) =
     (case all_strings
             (map (\<lambda>x. if x = JNull \<or> x = JUndefined then Inr [] else to_string x) xs) of
        Inl e \<Rightarrow> Inl e
      | Inr ss \<Rightarrow> Inr (join_comma ss))"
| "to_string (JObj kvs) =
     (if map_of kvs ''toString'' = None then Inr ''[object Object]'' else Inl TypeError)"

section \<open>The browser: storage, network, the client's module state\<close>

record http_request =
  url :: string
  http_method :: "string option"
  headers :: "string \<rightharpoonup> string"
  body :: js

record response =
  status :: nat
  statusText :: string
  body_json :: "js option"

text \<open>
  \<^verbatim>\<open>body_json\<close> is what \<^verbatim>\<open>response.json()\<close> settles to: \<open>None\<close> when it rejects
  (the body is not valid JSON), the parsed value otherwise.
\<close>

definition ok :: "response \<Rightarrow> bool" where
  "ok r = (200 \<le> status r \<and> status r \<le> 299)"

datatype fetch_outcome = NetworkFail | Response response

text \<open>
  The remote side: the outcome of a call may depend on the calls made before it.
\<close>

record platform =
  network :: "http_request list \<Rightarrow> http_request \<Rightarrow> fetch_outcome"
  JSON_stringify :: "js \<Rightarrow> js"

text \<open>
  \<^verbatim>\<open>JSON_stringify\<close> is the runtime's serialiser, a parameter of the model: it gives a
  string, or \<^verbatim>\<open>undefined\<close> for a value that has no JSON text. The \<^verbatim>\<open>body\<close> of a call is
  the value handed to \<^verbatim>\<open>fetch\<close>: a string, or \<^verbatim>\<open>undefined\<close> for none.
\<close>

record world =
  has_window :: bool
  api_url :: "string option"
  localStorage :: "string \<rightharpoonup> string"
  calls :: "http_request list"

text \<open>
  \<^verbatim>\<open>has_window\<close> is \<^verbatim>\<open>typeof window !== "undefined"\<close>; \<^verbatim>\<open>api_url\<close> is
  \<^verbatim>\<open>process.env.NEXT_PUBLIC_API_URL\<close>; \<^verbatim>\<open>calls\<close> records every \<^verbatim>\<open>fetch\<close> made, in
  order (\<^verbatim>\<open>send\<close> adds one). \<^verbatim>\<open>localStorage\<close> is an in-memory store without a quota:
  \<^verbatim>\<open>getItem\<close> never throws, and \<^verbatim>\<open>setItem\<close> throws only when its value has no string form
  (nothing is stored then).
\<close>

definition API_BASE :: "'a world_scheme \<Rightarrow> string" where
  "API_BASE st =
     (case api_url st of
        None \<Rightarrow> ''http://localhost:8000''
      | Some u \<Rightarrow> if u = [] then ''http://localhost:8000'' else u)"

definition getItem :: "'a world_scheme \<Rightarrow> string \<Rightarrow> js" where
  "getItem st k = (case localStorage st k of None \<Rightarrow> JNull | Some s \<Rightarrow> JStr s)"

definition setItem :: "string \<Rightarrow> js \<Rightarrow> 'a world_scheme \<Rightarrow> error + 'a world_scheme" where
  "setItem k v st =
     (case to_string v of
        Inl e \<Rightarrow> Inl e
      | Inr s \<Rightarrow> Inr (st\<lparr>localStorage := (localStorage st)(k \<mapsto> s)\<rparr>))"

definition send :: "http_request \<Rightarrow> 'a world_scheme \<Rightarrow> 'a world_scheme" where
  "send req st = st\<lparr>calls := calls st @ [req]\<rparr>"

definition fetch :: "platform \<Rightarrow> http_request \<Rightarrow> 'a world_scheme \<Rightarrow> fetch_outcome \<times> 'a world_scheme" where
  "fetch pf req st = (network pf (calls st) req, send req st)"

definition getToken :: "'a world_scheme \<Rightarrow> js" where
  "getToken st = (if \<not> has_window st then JNull else getItem st ''admin_access_token'')"

definition getRefreshToken :: "'a world_scheme \<Rightarrow> js" where
  "getRefreshToken st = (if \<not> has_window st then JNull else getItem st ''admin_refresh_token'')"

section \<open>Token refresh (\<^verbatim>\<open>api.ts\<close>, lines 35 to 73)\<close>

text \<open>
  \<^verbatim>\<open>refreshPromise\<close> is the module variable of line 36. In this model of one call chain
  a promise is the result it settles with; an occupied handle at entry is a refresh begun
  by another call chain (the interleaving of several chains is modelled in the last
  section).
\<close>

record session = world +
  refreshPromise :: "(error + js) option"

definition refresh_request :: "(js \<Rightarrow> js) \<Rightarrow> 'a world_scheme \<Rightarrow> js \<Rightarrow> http_request" where
  "refresh_request stringify st refreshToken =
     \<lparr>url = API_BASE st @ ''/v1/auth/refresh'',
      http_method = Some ''POST'',
      headers = [''Content-Type'' \<mapsto> ''application/json''],
      body = stringify (JObj [(''refresh_token'', refreshToken)])\<rparr>"

text \<open>Lines 62 to 69: what \<^verbatim>\<open>doRefreshAccessToken\<close> does once its \<^verbatim>\<open>fetch\<close> has settled.\<close>

definition doRefresh_response :: "fetch_outcome \<Rightarrow> 'a world_scheme \<Rightarrow> (error + js) \<times> 'a world_scheme" where
  "doRefresh_response out st =
     (case out of
        NetworkFail \<Rightarrow> (Inl NetworkError, st)
      | Response response \<Rightarrow>
          if \<not> ok response then (Inr JNull, st)
          else
            (case body_json response of
               None \<Rightarrow> (Inl JsonError, st)
             | Some data \<Rightarrow>
                 (case get_prop data ''access_token'' of
                    Inl e \<Rightarrow> (Inl e, st)
                  | Inr access_token \<Rightarrow>
                      (case setItem ''admin_access_token'' access_token st of
                         Inl e \<Rightarrow> (Inl e, st)
                       | Inr st1 \<Rightarrow>
                           (case get_prop data ''refresh_token'' of
                              Inl e \<Rightarrow> (Inl e, st1)
                            | Inr refresh_token \<Rightarrow>
                                if truthy refresh_token then
                                  (case setItem ''admin_refresh_token'' refresh_token st1 of
                                     Inl e \<Rightarrow> (Inl e, st1)
                                   | Inr st2 \<Rightarrow> (Inr access_token, st2))
                                else (Inr access_token, st1))))))"

text \<open>Lines 70 to 72: \<^verbatim>\<open>catch { return null; }\<close>. What the body did before it threw stays done.\<close>

definition catch_null :: "(error + js) \<times> 's \<Rightarrow> (error + js) \<times> 's" where
  "catch_null r = (case r of (Inl e, st) \<Rightarrow> (Inr JNull, st) | (Inr v, st) \<Rightarrow> (Inr v, st))"

definition doRefreshAccessToken :: "platform \<Rightarrow> 'a world_scheme \<Rightarrow> (error + js) \<times> 'a world_scheme" where
  "doRefreshAccessToken pf st =
     (let refreshToken = getRefreshToken st in
      if \<not> truthy refreshToken then (Inr JNull, st)
      else
        catch_null
          (case fetch pf (refresh_request (JSON_stringify pf) st refreshToken) st of
             (out, st1) \<Rightarrow> doRefresh_response out st1))"

definition refreshAccessToken :: "platform \<Rightarrow> 'a session_scheme \<Rightarrow> (error + js) \<times> 'a session_scheme" where
  "refreshAccessToken pf st =
     (case refreshPromise st of
        Some r \<Rightarrow> (r, st)
      | None \<Rightarrow>
          (case doRefreshAccessToken pf st of
             (r, st1) \<Rightarrow> (r, (st1\<lparr>refreshPromise := Some r\<rparr>)\<lparr>refreshPromise := None\<rparr>)))"

section \<open>The request pipeline (\<^verbatim>\<open>api.ts\<close>, lines 75 to 112)\<close>

record request_init =
  opt_method :: "string option"
  opt_headers :: "string \<rightharpoonup> string"
  opt_body :: js

definition base_headers :: "request_init \<Rightarrow> (string \<rightharpoonup> string)" where
  "base_headers options = [''Content-Type'' \<mapsto> ''application/json''] ++ opt_headers options"

text \<open>
  Lines 87 and 99: \<^verbatim>\<open>headers["Authorization"] = `Bearer ${token}`\<close>. The template literal
  converts its value to a string.
\<close>

definition with_bearer :: "js \<Rightarrow> (string \<rightharpoonup> string) \<Rightarrow> error + (string \<rightharpoonup> string)" where
  "with_bearer token hs =
     (case to_string token of
        Inl e \<Rightarrow> Inl e
      | Inr s \<Rightarrow> Inr (hs(''Authorization'' \<mapsto> ''Bearer '' @ s)))"

definition api_request :: "'a world_scheme \<Rightarrow> string \<Rightarrow> request_init \<Rightarrow> (string \<rightharpoonup> string) \<Rightarrow> http_request" where
  "api_request st path options hs =
     \<lparr>url = API_BASE st @ path, http_method = opt_method options, headers = hs,
      body = opt_body options\<rparr>"

text \<open>Lines 79 to 88: the headers of the first call.\<close>

definition auth_headers :: "'a world_scheme \<Rightarrow> request_init \<Rightarrow> error + (string \<rightharpoonup> string)" where
  "auth_headers st options =
     (let token = getToken st in
      if truthy token then with_bearer token (base_headers options)
      else Inr (base_headers options))"

text \<open>
  The token of line 79 comes out of \<^verbatim>\<open>localStorage.getItem\<close>, so it is a string or
  \<^verbatim>\<open>null\<close> and line 87 never throws (\<open>auth_headers_first\<close> below): \<open>first_headers\<close> are the
  headers it gives.
\<close>

definition first_headers :: "'a world_scheme \<Rightarrow> request_init \<Rightarrow> (string \<rightharpoonup> string)" where
  "first_headers st options =
     (case auth_headers st options of Inl e \<Rightarrow> base_headers options | Inr hs \<Rightarrow> hs)"

text \<open>
  Lines 79 to 102: the response the call ends with, the first one or the one of the single
  retry.
\<close>

definition request_response ::
  "platform \<Rightarrow> string \<Rightarrow> request_init \<Rightarrow> 'a session_scheme \<Rightarrow> (error + response) \<times> 'a session_scheme" where
  "request_response pf path options st =
     (let token = getToken st in
      case auth_headers st options of
        Inl e \<Rightarrow> (Inl e, st)
      | Inr hs \<Rightarrow>
          (case fetch pf (api_request st path options hs) st of
             (NetworkFail, st1) \<Rightarrow> (Inl NetworkError, st1)
           | (Response response, st1) \<Rightarrow>
               if status response = 401 \<and> truthy token then
                 (case refreshAccessToken pf st1 of
                    (Inl e, st2) \<Rightarrow> (Inl e, st2)
                  | (Inr newToken, st2) \<Rightarrow>
                      if truthy newToken then
                        (case with_bearer newToken hs of
                           Inl e \<Rightarrow> (Inl e, st2)
                         | Inr hs2 \<Rightarrow>
                             (case fetch pf (api_request st2 path options hs2) st2 of
                                (NetworkFail, st3) \<Rightarrow> (Inl NetworkError, st3)
                              | (Response response2, st3) \<Rightarrow> (Inr response2, st3)))
                      else (Inr response, st2))
               else (Inr response, st1)))"

text \<open>
  Lines 104 to 111: the error of a failed response, the body of a successful one.
  \<^verbatim>\<open>new AdminApiError(message, status)\<close> hands \<^verbatim>\<open>message\<close> to the \<^verbatim>\<open>Error\<close> constructor,
  which converts it to a string.
\<close>

definition new_AdminApiError :: "js \<Rightarrow> nat \<Rightarrow> error" where
  "new_AdminApiError message code =
     (case to_string message of Inl e \<Rightarrow> e | Inr text \<Rightarrow> AdminApiError text code)"

definition request_result :: "response \<Rightarrow> error + js" where
  "request_result response =
     (if \<not> ok response then
        (let body = (case body_json response of
                       None \<Rightarrow> JObj [(''detail'', JStr (statusText response))]
                     | Some b \<Rightarrow> b)
         in case get_prop body ''detail'' of
              Inl e \<Rightarrow> Inl e
            | Inr detail \<Rightarrow>
                Inl (new_AdminApiError (js_or detail (JStr ''Request failed'')) (status response)))
      else (case body_json response of None \<Rightarrow> Inl JsonError | Some v \<Rightarrow> Inr v))"

definition request ::
  "platform \<Rightarrow> string \<Rightarrow> request_init \<Rightarrow> 'a session_scheme \<Rightarrow> (error + js) \<times> 'a session_scheme" where
  "request pf path options st =
     (case request_response pf path options st of
        (Inl e, st1) \<Rightarrow> (Inl e, st1)
      | (Inr response, st1) \<Rightarrow> (request_result response, st1))"

section \<open>Login (\<^verbatim>\<open>api.ts\<close>, lines 118 to 170; \<^verbatim>\<open>AdminAuthContext.tsx\<close>, lines 77 to 95)\<close>

definition login_request :: "(js \<Rightarrow> js) \<Rightarrow> 'a world_scheme \<Rightarrow> string \<Rightarrow> string \<Rightarrow> http_request" where
  "login_request stringify st email password =
     \<lparr>url = API_BASE st @ ''/v1/auth/login'',
      http_method = Some ''POST'',
      headers = [''Content-Type'' \<mapsto> ''application/json''],
      body = stringify (JObj [(''email'', JStr email), (''password'', JStr password)])\<rparr>"

definition verify_request :: "'a world_scheme \<Rightarrow> js \<Rightarrow> error + http_request" where
  "verify_request st access_token =
     (case to_string access_token of
        Inl e \<Rightarrow> Inl e
      | Inr s \<Rightarrow>
          Inr \<lparr>url = API_BASE st @ ''/v1/admin/auth/verify'',
               http_method = None,
               headers = [''Authorization'' \<mapsto> ''Bearer '' @ s],
               body = JUndefined\<rparr>)"

definition adminLogin ::
  "platform \<Rightarrow> string \<Rightarrow> string \<Rightarrow> 'a world_scheme \<Rightarrow> (error + js) \<times> 'a world_scheme" where
  "adminLogin pf email password st =
     (case fetch pf (login_request (JSON_stringify pf) st email password) st of
        (NetworkFail, st1) \<Rightarrow> (Inl NetworkError, st1)
      | (Response res, st1) \<Rightarrow>
          if \<not> ok res then
            (let body = (case body_json res of
                           None \<Rightarrow> JObj [(''detail'', JStr ''Login failed'')]
                         | Some b \<Rightarrow> b)
             in if status res = 401 \<or> status res = 400 then
                  (Inl (AdminApiError ''Invalid email or password.'' (status res)), st1)
                else if status res = 403 then
                  (Inl (AdminApiError
                          ''This account has been disabled. Contact your administrator.'' 403),
                   st1)
                else
                  (case get_prop body ''detail'' of
                     Inl e \<Rightarrow> (Inl e, st1)
                   | Inr detail \<Rightarrow>
                       (Inl (new_AdminApiError
                               (js_or detail
                                  (JStr ''Authentication server unavailable. Try again later.''))
                               (status res)),
                        st1)))
          else
            (case body_json res of
               None \<Rightarrow> (Inl JsonError, st1)
             | Some data \<Rightarrow>
                 (case get_prop data ''access_token'' of
                    Inl e \<Rightarrow> (Inl e, st1)
                  | Inr access_token \<Rightarrow>
                      (case verify_request st1 access_token of
                         Inl e \<Rightarrow> (Inl e, st1)
                       | Inr verify \<Rightarrow>
                           (case fetch pf verify st1 of
                              (NetworkFail, st2) \<Rightarrow> (Inl NetworkError, st2)
                            | (Response verifyRes, st2) \<Rightarrow>
                                if \<not> ok verifyRes then
                                  (Inl (AdminApiError
                                          ''Access denied. This account does not have admin privileges.''
                                          403),
                                   st2)
                                else (Inr data, st2))))))"

text \<open>
  The provider's state: \<^verbatim>\<open>user\<close> is the React state of line 35, \<^verbatim>\<open>route\<close> the path
  last given to \<^verbatim>\<open>router.replace\<close>. \<^verbatim>\<open>login\<close> is a callback of the login form and runs in
  the browser only.
\<close>

record app = session +
  user :: js
  route :: string

text \<open>The object of lines 85 to 90; \<^verbatim>\<open>??\<close> replaces \<^verbatim>\<open>null\<close> and \<^verbatim>\<open>undefined\<close> only.\<close>

definition admin_user :: "js \<Rightarrow> error + js" where
  "admin_user u =
     (case get_prop u ''id'' of
        Inl e \<Rightarrow> Inl e
      | Inr uid \<Rightarrow>
          (case get_prop u ''email'' of
             Inl e \<Rightarrow> Inl e
           | Inr email \<Rightarrow>
               (case get_prop u ''name'' of
                  Inl e \<Rightarrow> Inl e
                | Inr name \<Rightarrow>
                    (case get_prop u ''is_superuser'' of
                       Inl e \<Rightarrow> Inl e
                     | Inr su \<Rightarrow>
                         Inr (JObj [(''id'', uid), (''email'', email), (''name'', name),
                                    (''is_superuser'',
                                     if su = JNull \<or> su = JUndefined then JBool True else su)])))))"

definition login :: "platform \<Rightarrow> string \<Rightarrow> string \<Rightarrow> 'a app_scheme \<Rightarrow> (error + unit) \<times> 'a app_scheme" where
  "login pf email password st =
     (case adminLogin pf email password st of
        (Inl e, st1) \<Rightarrow> (Inl e, st1)
      | (Inr data, st1) \<Rightarrow>
          (case get_prop data ''access_token'' of
             Inl e \<Rightarrow> (Inl e, st1)
           | Inr access_token \<Rightarrow>
               (case setItem ''admin_access_token'' access_token st1 of
                  Inl e \<Rightarrow> (Inl e, st1)
                | Inr st2 \<Rightarrow>
                    (case get_prop data ''refresh_token'' of
                       Inl e \<Rightarrow> (Inl e, st2)
                     | Inr refresh_token \<Rightarrow>
                         (case setItem ''admin_refresh_token'' refresh_token st2 of
                            Inl e \<Rightarrow> (Inl e, st2)
                          | Inr st3 \<Rightarrow>
                              (case get_prop data ''user'' of
                                 Inl e \<Rightarrow> (Inl e, st3)
                               | Inr u \<Rightarrow>
                                   (case setItem ''admin_user'' (JSON_stringify pf u) st3 of
                                      Inl e \<Rightarrow> (Inl e, st3)
                                    | Inr st4 \<Rightarrow>
                                        (case admin_user u of
                                           Inl e \<Rightarrow> (Inl e, st4)
                                         | Inr obj \<Rightarrow>
                                             (Inr (), st4\<lparr>user := obj, route := ''/''\<rparr>)))))))))"

section \<open>Several calls in flight\<close>

text \<open>
  JavaScript runs one turn at a time: a call of \<^verbatim>\<open>request\<close> runs until its next
  \<^verbatim>\<open>await\<close> and resumes in a later turn, once what it awaits has settled; other calls run in
  between. The interleaving is modelled by events on the state of the whole client: the
  store and the calls made, the handle \<^verbatim>\<open>refreshPromise\<close> (\<open>handle\<close>: the position of a
  promise in the list of all promises that \<^verbatim>\<open>doRefreshAccessToken\<close> has returned), and one
  frame for every call of \<^verbatim>\<open>request\<close>, with its local variables and the \<^verbatim>\<open>await\<close> it stands
  at. A frame also keeps the promise that its call of \<^verbatim>\<open>refreshAccessToken\<close> awaits
  (\<open>f_awaited\<close>) and what that call gave back (\<open>f_newToken\<close>).

  The stages of a frame: \<open>AwaitResponse\<close> is line 90; \<open>AwaitRefresh response began p\<close> is
  line 97 with the 401 held in \<^verbatim>\<open>response\<close>, where \<open>began\<close> tells whether the call's
  \<^verbatim>\<open>refreshAccessToken\<close> stands at line 45, having begun the refresh behind promise \<open>p\<close>, or
  returned the promise in flight at line 40; \<open>AwaitRetry\<close> is line 100; \<open>Returned\<close> is the
  settled call.
\<close>

datatype promise = Pending | Settled "error + js"

datatype stage =
    AwaitResponse
  | AwaitRefresh response bool nat
  | AwaitRetry
  | Returned "error + js"

record call_frame =
  f_path :: string
  f_options :: request_init
  f_token :: js
  f_headers :: "string \<rightharpoonup> string"
  f_awaited :: "nat option"
  f_newToken :: "(error + js) option"
  f_stage :: stage

record client = world +
  handle :: "nat option"
  promises :: "promise list"
  frames :: "call_frame list"

text \<open>
  The events: \<^verbatim>\<open>request\<close> is called; the \<^verbatim>\<open>fetch\<close> that a call awaits settles; the
  \<^verbatim>\<open>fetch\<close> of the refresh behind a promise settles; a call resumes from a settled refresh.
  The outcome of a \<^verbatim>\<open>fetch\<close> comes with the event: the remote side answers in any order and
  with anything. Reading a body (\<^verbatim>\<open>response.json()\<close>) is taken in the turn of its response:
  no line between the two touches the shared state.
\<close>

datatype event =
    Call string request_init
  | Respond nat fetch_outcome
  | RefreshRespond nat fetch_outcome
  | Resume nat

definition set_frame :: "nat \<Rightarrow> call_frame \<Rightarrow> client \<Rightarrow> client" where
  "set_frame i f st = st\<lparr>frames := (frames st)[i := f]\<rparr>"

text \<open>Lines 79 to 93. A call that throws before its \<^verbatim>\<open>fetch\<close> is settled at once.\<close>

definition new_call :: "string \<Rightarrow> request_init \<Rightarrow> client \<Rightarrow> client" where
  "new_call path options st =
     (let token = getToken st in
      case auth_headers st options of
        Inl e \<Rightarrow>
          st\<lparr>frames := frames st @
            [\<lparr>f_path = path, f_options = options, f_token = token,
              f_headers = base_headers options,
              f_awaited = None, f_newToken = None, f_stage = Returned (Inl e)\<rparr>]\<rparr>
      | Inr hs \<Rightarrow>
          (let st1 = send (api_request st path options hs) st
           in st1\<lparr>frames := frames st1 @
                [\<lparr>f_path = path, f_options = options, f_token = token, f_headers = hs,
                  f_awaited = None, f_newToken = None, f_stage = AwaitResponse\<rparr>]\<rparr>))"

text \<open>
  Line 43 with lines 52 to 60: \<^verbatim>\<open>doRefreshAccessToken\<close> runs up to its \<^verbatim>\<open>await\<close>, and its
  promise, already settled with \<^verbatim>\<open>null\<close> when no refresh token is stored, goes into the
  handle.
\<close>

definition start_refresh :: "(js \<Rightarrow> js) \<Rightarrow> client \<Rightarrow> client" where
  "start_refresh stringify st =
     (let refreshToken = getRefreshToken st;
          p = length (promises st)
      in if \<not> truthy refreshToken
         then st\<lparr>handle := Some p, promises := promises st @ [Settled (Inr JNull)]\<rparr>
         else (send (refresh_request stringify st refreshToken) st)
                \<lparr>handle := Some p, promises := promises st @ [Pending]\<rparr>)"

text \<open>
  Lines 95 to 112, up to the next \<^verbatim>\<open>await\<close>: a 401 with a token attached enters
  \<^verbatim>\<open>refreshAccessToken\<close> (lines 39 to 45), every other first response and every response to
  the retry settles the call.
\<close>

definition on_response :: "(js \<Rightarrow> js) \<Rightarrow> nat \<Rightarrow> fetch_outcome \<Rightarrow> client \<Rightarrow> client option" where
  "on_response stringify i out st =
     (if i < length (frames st) then
        (let f = frames st ! i in
         case f_stage f of
           AwaitResponse \<Rightarrow>
             (case out of
                NetworkFail \<Rightarrow> Some (set_frame i (f\<lparr>f_stage := Returned (Inl NetworkError)\<rparr>) st)
              | Response response \<Rightarrow>
                  if status response = 401 \<and> truthy (f_token f) then
                    (case handle st of
                       Some p \<Rightarrow>
                         Some (set_frame i
                                 (f\<lparr>f_awaited := Some p, f_stage := AwaitRefresh response False p\<rparr>) st)
                     | None \<Rightarrow>
                         Some (set_frame i
                                 (f\<lparr>f_awaited := Some (length (promises st)),
                                    f_stage := AwaitRefresh response True (length (promises st))\<rparr>)
                                 (start_refresh stringify st)))
                  else Some (set_frame i (f\<lparr>f_stage := Returned (request_result response)\<rparr>) st))
         | AwaitRetry \<Rightarrow>
             (case out of
                NetworkFail \<Rightarrow> Some (set_frame i (f\<lparr>f_stage := Returned (Inl NetworkError)\<rparr>) st)
              | Response response \<Rightarrow>
                  Some (set_frame i (f\<lparr>f_stage := Returned (request_result response)\<rparr>) st))
         | AwaitRefresh response began p \<Rightarrow> None
         | Returned r \<Rightarrow> None)
      else None)"

text \<open>Lines 62 to 72: the promise settles with what \<^verbatim>\<open>doRefreshAccessToken\<close> returns.\<close>

definition on_refresh_response :: "nat \<Rightarrow> fetch_outcome \<Rightarrow> client \<Rightarrow> client option" where
  "on_refresh_response p out st =
     (if p < length (promises st) \<and> promises st ! p = Pending then
        (case catch_null (doRefresh_response out st) of
           (r, st1) \<Rightarrow> Some (st1\<lparr>promises := (promises st1)[p := Settled r]\<rparr>))
      else None)"

text \<open>
  Line 47 for the call that began the refresh (\<^verbatim>\<open>finally\<close> empties the handle), then lines
  97 to 112 up to the next \<^verbatim>\<open>await\<close>.
\<close>

definition resume :: "nat \<Rightarrow> client \<Rightarrow> client option" where
  "resume i st =
     (if i < length (frames st) then
        (let f = frames st ! i in
         case f_stage f of
           AwaitRefresh response began p \<Rightarrow>
             (if p < length (promises st) then
                (case promises st ! p of
                   Pending \<Rightarrow> None
                 | Settled r \<Rightarrow>
                     (let st1 = (if began then st\<lparr>handle := None\<rparr> else st);
                          f1 = f\<lparr>f_newToken := Some r\<rparr>
                      in case r of
                           Inl e \<Rightarrow> Some (set_frame i (f1\<lparr>f_stage := Returned (Inl e)\<rparr>) st1)
                         | Inr newToken \<Rightarrow>
                             if truthy newToken then
                               (case with_bearer newToken (f_headers f) of
                                  Inl e \<Rightarrow> Some (set_frame i (f1\<lparr>f_stage := Returned (Inl e)\<rparr>) st1)
                                | Inr hs \<Rightarrow>
                                    Some (set_frame i (f1\<lparr>f_stage := AwaitRetry\<rparr>)
                                            (send (api_request st1 (f_path f) (f_options f) hs)
                                               st1)))
                             else Some (set_frame i
                                          (f1\<lparr>f_stage := Returned (request_result response)\<rparr>) st1)))
              else None)
         | AwaitResponse \<Rightarrow> None
         | AwaitRetry \<Rightarrow> None
         | Returned r \<Rightarrow> None)
      else None)"

fun step :: "(js \<Rightarrow> js) \<Rightarrow> event \<Rightarrow> client \<Rightarrow> client option" where
  "step stringify (Call path options) st = Some (new_call path options st)"
| "step stringify (Respond i out) st = on_response stringify i out st"
| "step stringify (RefreshRespond p out) st = on_refresh_response p out st"
| "step stringify (Resume i) st = resume i st"

fun run :: "(js \<Rightarrow> js) \<Rightarrow> event list \<Rightarrow> client \<Rightarrow> client option" where
  "run stringify [] st = Some st"
| "run stringify (e # es) st =
     (case step stringify e st of None \<Rightarrow> None | Some st1 \<Rightarrow> run stringify es st1)"

text \<open>
  The module as loaded: an empty handle, nothing running. The reachable states are those that
  events lead to from there.
\<close>

definition idle :: "client \<Rightarrow> bool" where
  "idle st = (handle st = None \<and> promises st = [] \<and> frames st = [])"

inductive reachable :: "(js \<Rightarrow> js) \<Rightarrow> client \<Rightarrow> bool" for stringify where
  idle: "idle st \<Longrightarrow> reachable stringify st"
| step: "reachable stringify st \<Longrightarrow> step stringify e st = Some st' \<Longrightarrow> reachable stringify st'"

text \<open>
  A refresh is in flight while its promise is pending. A call awaiting its first response with
  a token attached is one that a 401 sends into \<^verbatim>\<open>refreshAccessToken\<close>; \<open>deliver\<close> gives the
  calls \<open>ks\<close> their responses \<open>rs\<close>, one turn each.
\<close>

definition in_flight :: "client \<Rightarrow> nat \<Rightarrow> bool" where
  "in_flight st p = (p < length (promises st) \<and> promises st ! p = Pending)"

definition awaiting_response :: "client \<Rightarrow> nat \<Rightarrow> bool" where
  "awaiting_response st i =
     (i < length (frames st) \<and> f_stage (frames st ! i) = AwaitResponse \<and>
      truthy (f_token (frames st ! i)))"

definition deliver :: "nat list \<Rightarrow> response list \<Rightarrow> event list" where
  "deliver ks rs = map (\<lambda>(i, r). Respond i (Response r)) (zip ks rs)"

text \<open>
  What holds in every reachable state: a refresh in flight is the one in the handle; the one
  call that began a refresh and has not resumed keeps the handle on its promise; a call
  awaiting a refresh awaits a promise that exists; a call that has resumed holds the value its
  promise settled with.
\<close>

definition began_refresh :: "client \<Rightarrow> nat \<Rightarrow> nat \<Rightarrow> bool" where
  "began_refresh st i p =
     (i < length (frames st) \<and> (\<exists>response. f_stage (frames st ! i) = AwaitRefresh response True p))"

definition consistent :: "client \<Rightarrow> bool" where
  "consistent st =
     ((\<forall>p. in_flight st p \<longrightarrow> handle st = Some p) \<and>
      (\<forall>p. handle st = Some p \<longrightarrow> p < length (promises st)) \<and>
      (\<forall>i p. began_refresh st i p \<longrightarrow> handle st = Some p) \<and>
      (\<forall>i j p q. began_refresh st i p \<longrightarrow> began_refresh st j q \<longrightarrow> i = j) \<and>
      (\<forall>i response began p. i < length (frames st) \<longrightarrow>
           f_stage (frames st ! i) = AwaitRefresh response began p \<longrightarrow>
           p < length (promises st) \<and> f_awaited (frames st ! i) = Some p) \<and>
      (\<forall>i. i < length (frames st) \<longrightarrow> f_stage (frames st ! i) = AwaitResponse \<longrightarrow>
           f_awaited (frames st ! i) = None \<and> f_newToken (frames st ! i) = None) \<and>
      (\<forall>i p r. i < length (frames st) \<longrightarrow> f_awaited (frames st ! i) = Some p \<longrightarrow>
           f_newToken (frames st ! i) = Some r \<longrightarrow>
           p < length (promises st) \<and> promises st ! p = Settled r))"

text \<open>
  One call running alone, the remote side answering each call as the platform's network does:
  \<open>alone\<close> takes the event that is due, at most \<open>n\<close> times. \<open>as_session\<close> is the same
  browser as the single-chain functions see it.
\<close>

definition as_session :: "client \<Rightarrow> session" where
  "as_session st = \<lparr>has_window = has_window st, api_url = api_url st,
     localStorage = localStorage st, calls = calls st, refreshPromise = None\<rparr>"

definition answer :: "platform \<Rightarrow> client \<Rightarrow> fetch_outcome" where
  "answer pf st = network pf (butlast (calls st)) (last (calls st))"

definition next_event :: "platform \<Rightarrow> client \<Rightarrow> event option" where
  "next_event pf st =
     (case frames st of
        [] \<Rightarrow> None
      | f # fs \<Rightarrow>
          (case f_stage f of
             AwaitResponse \<Rightarrow> Some (Respond 0 (answer pf st))
           | AwaitRetry \<Rightarrow> Some (Respond 0 (answer pf st))
           | AwaitRefresh response began p \<Rightarrow>
               (if in_flight st p then Some (RefreshRespond p (answer pf st)) else Some (Resume 0))
           | Returned r \<Rightarrow> None))"

fun alone :: "platform \<Rightarrow> nat \<Rightarrow> client \<Rightarrow> client" where
  "alone pf 0 st = st"
| "alone pf (Suc n) st =
     (case next_event pf st of
        None \<Rightarrow> st
      | Some e \<Rightarrow>
          (case step (JSON_stringify pf) e st of
             None \<Rightarrow> st
           | Some st1 \<Rightarrow> alone pf n st1))"

section \<open>Example environments\<close>

text \<open>
  A transport that answers the \<open>n\<close>-th call with the \<open>n\<close>-th outcome of a list (and fails
  once the list is used up), with a stand-in serialiser whose text no result depends on; a
  browser with a given store and no call made yet; a call with no options.
\<close>

definition stub_stringify :: "js \<Rightarrow> js" where
  "stub_stringify v = JStr ''{}''"

definition scripted :: "fetch_outcome list \<Rightarrow> platform" where
  "scripted outs =
     \<lparr>network = (\<lambda>log req. if length log < length outs then outs ! length log else NetworkFail),
      JSON_stringify = stub_stringify\<rparr>"

definition browser :: "(string \<rightharpoonup> string) \<Rightarrow> session" where
  "browser store = \<lparr>has_window = True, api_url = None, localStorage = store, calls = [],
     refreshPromise = None\<rparr>"

definition no_options :: request_init where
  "no_options = \<lparr>opt_method = None, opt_headers = Map.empty, opt_body = JUndefined\<rparr>"

definition reply :: "nat \<Rightarrow> string \<Rightarrow> js option \<Rightarrow> fetch_outcome" where
  "reply code text b = Response \<lparr>status = code, statusText = text, body_json = b\<rparr>"

definition no_tokens :: "string \<rightharpoonup> string" where
  "no_tokens = Map.empty"

definition access_token_only :: "string \<rightharpoonup> string" where
  "access_token_only = [''admin_access_token'' \<mapsto> ''old-token'']"

definition stored_tokens :: "string \<rightharpoonup> string" where
  "stored_tokens = [''admin_access_token'' \<mapsto> ''old-token'', ''admin_refresh_token'' \<mapsto> ''refresh-1'']"

definition users_page :: js where
  "users_page = JObj [(''items'', JArr []), (''total'', JNum ''0'')]"

definition unauthorized :: response where
  "unauthorized = \<lparr>status = 401, statusText = ''Unauthorized'',
     body_json = Some (JObj [(''detail'', JStr ''Token expired'')])\<rparr>"

definition expired :: fetch_outcome where
  "expired = Response unauthorized"

definition refreshed :: fetch_outcome where
  "refreshed = reply 200 ''OK'' (Some (JObj [(''access_token'', JStr ''new-token'')]))"

definition login_page :: "(string \<rightharpoonup> string) \<Rightarrow> app" where
  "login_page store = \<lparr>has_window = True, api_url = None, localStorage = store, calls = [],
     refreshPromise = None, user = JNull, route = ''/login''\<rparr>"

definition credentials :: js where
  "credentials = JObj [(''access_token'', JStr ''user-token''), (''refresh_token'', JStr ''user-refresh''),
     (''user'', JObj [(''id'', JStr ''u1''), (''email'', JStr ''a@b.com''), (''name'', JNull)])]"

definition loaded :: "(string \<rightharpoonup> string) \<Rightarrow> client" where
  "loaded store = \<lparr>has_window = True, api_url = None, localStorage = store, calls = [],
     handle = None, promises = [], frames = []\<rparr>"

definition two_calls :: "(string \<rightharpoonup> string) \<Rightarrow> client" where
  "two_calls store =
     new_call ''/v1/admin/projects'' no_options
       (new_call ''/v1/admin/users'' no_options (loaded store))"

definition urls_called :: "'a world_scheme \<Rightarrow> string list" where
  "urls_called st = map url (calls st)"

section \<open>Effects of the building blocks\<close>

lemmas fixture_defs = scripted_def stub_stringify_def browser_def no_options_def reply_def
  no_tokens_def access_token_only_def stored_tokens_def users_page_def unauthorized_def
  expired_def refreshed_def

lemmas run_defs = request_def request_response_def request_result_def new_AdminApiError_def
  refreshAccessToken_def doRefreshAccessToken_def doRefresh_response_def catch_null_def
  auth_headers_def with_bearer_def setItem_def getToken_def getRefreshToken_def getItem_def
  fetch_def js_or_def ok_def Let_def

lemma send_simps [simp]:
  "calls (send req st) = calls st @ [req]"
  "localStorage (send req st) = localStorage st"
  "has_window (send req st) = has_window st"
  "api_url (send req st) = api_url st"
  by (simp_all add: send_def)

lemma refreshPromise_send [simp]: "refreshPromise (send req st) = refreshPromise st"
  by (simp add: send_def)

lemma send_app [simp]:
  "user (send req st) = user st" "route (send req st) = route st"
  by (simp_all add: send_def)

lemma setItem_Inr:
  assumes "setItem k v st = Inr st1"
  shows "calls st1 = calls st" and "has_window st1 = has_window st" and "api_url st1 = api_url st"
    and "\<exists>s. to_string v = Inr s \<and> localStorage st1 = (localStorage st)(k \<mapsto> s)"
  using assms by (auto simp: setItem_def split: sum.splits)

lemma setItem_string [simp]:
  "setItem k (JStr s) st = Inr (st\<lparr>localStorage := (localStorage st)(k \<mapsto> s)\<rparr>)"
  by (simp add: setItem_def)

text \<open>The token read at line 79 is a string or \<^verbatim>\<open>null\<close>, so line 87 never throws.\<close>

lemma first_headers_anonymous:
  "\<not> truthy (getToken st) \<Longrightarrow> first_headers st options = base_headers options"
  by (simp add: first_headers_def auth_headers_def)

lemma first_headers_token:
  "getToken st = JStr tok \<Longrightarrow> tok \<noteq> [] \<Longrightarrow>
   first_headers st options = (base_headers options)(''Authorization'' \<mapsto> ''Bearer '' @ tok)"
  by (simp add: first_headers_def auth_headers_def with_bearer_def)

lemma first_headers_send [simp]: "first_headers (send req st) options = first_headers st options"
  by (simp add: first_headers_def auth_headers_def getToken_def getItem_def)

lemma auth_headers_first [simp]: "auth_headers st options = Inr (first_headers st options)"
  by (simp add: auth_headers_def first_headers_def with_bearer_def getToken_def getItem_def
      split: option.splits)

lemma API_BASE_send [simp]: "API_BASE (send req st) = API_BASE st"
  by (simp add: API_BASE_def)

lemma getRefreshToken_send [simp]: "getRefreshToken (send req st) = getRefreshToken st"
  by (simp add: getRefreshToken_def getItem_def)

lemma refresh_request_send [simp]:
  "refresh_request sf (send req st) rt = refresh_request sf st rt"
  by (simp add: refresh_request_def)

lemma getToken_stored:
  "has_window st \<Longrightarrow> localStorage st ''admin_access_token'' = Some tok \<Longrightarrow> tok \<noteq> [] \<Longrightarrow>
   getToken st = JStr tok \<and> truthy (getToken st)"
  by (simp add: getToken_def getItem_def)

lemma doRefresh_response_calls [simp]: "calls (snd (doRefresh_response out st)) = calls st"
  by (simp add: doRefresh_response_def setItem_def Let_def
      split: fetch_outcome.splits option.splits sum.splits)

lemma doRefresh_response_api_url [simp]: "api_url (snd (doRefresh_response out st)) = api_url st"
  by (simp add: doRefresh_response_def setItem_def Let_def
      split: fetch_outcome.splits option.splits sum.splits)

lemma catch_null_snd [simp]: "snd (catch_null r) = snd r"
  by (simp add: catch_null_def split: prod.splits sum.splits)

lemma doRefreshAccessToken_calls:
  "calls (snd (doRefreshAccessToken pf st)) =
     calls st @ (if truthy (getRefreshToken st)
                 then [refresh_request (JSON_stringify pf) st (getRefreshToken st)] else [])"
  by (simp add: doRefreshAccessToken_def fetch_def Let_def split: prod.splits)

lemma doRefreshAccessToken_api_url [simp]:
  "api_url (snd (doRefreshAccessToken pf st)) = api_url st"
  by (simp add: doRefreshAccessToken_def fetch_def Let_def split: prod.splits)

lemma refreshAccessToken_calls:
  "calls (snd (refreshAccessToken pf st)) =
     calls st @ (if refreshPromise st = None \<and> truthy (getRefreshToken st)
                 then [refresh_request (JSON_stringify pf) st (getRefreshToken st)] else [])"
  using doRefreshAccessToken_calls [of pf st]
  by (auto simp: refreshAccessToken_def split: option.splits prod.splits)

lemma refreshAccessToken_api_url [simp]:
  "api_url (snd (refreshAccessToken pf st)) = api_url st"
proof (cases "doRefreshAccessToken pf st")
  case (Pair r st1)
  with doRefreshAccessToken_api_url [of pf st] show ?thesis
    by (simp add: refreshAccessToken_def split: option.splits)
qed

lemma API_BASE_refresh [simp]: "API_BASE (snd (refreshAccessToken pf st)) = API_BASE st"
  by (simp add: API_BASE_def)

lemma refreshAccessToken_handle:
  "refreshPromise st = None \<Longrightarrow> refreshPromise (snd (refreshAccessToken pf st)) = None"
  by (auto simp: refreshAccessToken_def split: option.splits prod.splits)

lemma refreshAccessToken_fresh:
  assumes "refreshPromise st = None"
  shows "fst (refreshAccessToken pf st) = fst (doRefreshAccessToken pf st)"
    and "localStorage (snd (refreshAccessToken pf st)) = localStorage (snd (doRefreshAccessToken pf st))"
  using assms by (cases "doRefreshAccessToken pf st", simp add: refreshAccessToken_def)+

section \<open>What a refresh returns and writes\<close>

text \<open>
  \<^verbatim>\<open>doRefreshAccessToken\<close> never rejects, and so neither does \<^verbatim>\<open>refreshAccessToken\<close> when it
  begins the refresh itself. With no refresh token stored, a failed transport, a response
  outside 2xx, a body that is not JSON or the body \<^verbatim>\<open>null\<close>, both resolve to \<^verbatim>\<open>null\<close> and leave
  the store as it was.
\<close>

lemma doRefreshAccessToken_resolves: "\<exists>v. fst (doRefreshAccessToken pf st) = Inr v"
  by (auto simp: doRefreshAccessToken_def catch_null_def Let_def split: prod.splits sum.splits)

lemma refreshAccessToken_resolves:
  "refreshPromise st = None \<Longrightarrow> \<exists>v. fst (refreshAccessToken pf st) = Inr v"
  using doRefreshAccessToken_resolves [of pf st]
  by (auto simp: refreshAccessToken_def split: prod.splits)

lemma doRefreshAccessToken_failure:
  assumes "\<not> truthy (getRefreshToken st) \<or>
           network pf (calls st) (refresh_request (JSON_stringify pf) st (getRefreshToken st)) = NetworkFail \<or>
           (\<exists>rr. network pf (calls st) (refresh_request (JSON_stringify pf) st (getRefreshToken st)) = Response rr \<and>
                 (\<not> ok rr \<or> body_json rr = None \<or> body_json rr = Some JNull))"
  shows "fst (doRefreshAccessToken pf st) = Inr JNull"
    and "localStorage (snd (doRefreshAccessToken pf st)) = localStorage st"
  using assms
  by (auto simp: doRefreshAccessToken_def doRefresh_response_def catch_null_def fetch_def Let_def)

lemma refreshAccessToken_failure:
  assumes "refreshPromise st = None"
    and "\<not> truthy (getRefreshToken st) \<or>
           network pf (calls st) (refresh_request (JSON_stringify pf) st (getRefreshToken st)) = NetworkFail \<or>
           (\<exists>rr. network pf (calls st) (refresh_request (JSON_stringify pf) st (getRefreshToken st)) = Response rr \<and>
                 (\<not> ok rr \<or> body_json rr = None \<or> body_json rr = Some JNull))"
  shows "fst (refreshAccessToken pf st) = Inr JNull"
    and "localStorage (snd (refreshAccessToken pf st)) = localStorage st"
  using doRefreshAccessToken_failure [OF assms(2)] refreshAccessToken_fresh [OF assms(1)]
  by simp_all

text \<open>
  A 2xx response whose body carries an access token with a string form, and a refresh token
  that is absent, falsy or has a string form, makes the refresh resolve to the access token
  and store its string form.
\<close>

lemma doRefresh_response_success:
  assumes "ok rr" and "body_json rr = Some data"
    and "get_prop data ''access_token'' = Inr new" and "to_string new = Inr new_text"
    and "get_prop data ''refresh_token'' = Inr rotated"
    and "\<not> truthy rotated \<or> (\<exists>s. to_string rotated = Inr s)"
  shows "fst (doRefresh_response (Response rr) st) = Inr new"
    and "localStorage (snd (doRefresh_response (Response rr) st)) ''admin_access_token'' = Some new_text"
  using assms by (auto simp: doRefresh_response_def setItem_def Let_def)

lemma refresh_success:
  assumes "has_window st" and "refreshPromise st = None"
    and "localStorage st ''admin_refresh_token'' = Some rt" and "rt \<noteq> []"
    and "network pf (calls st) (refresh_request (JSON_stringify pf) st (JStr rt)) = Response rr"
    and "ok rr" and "body_json rr = Some data"
    and "get_prop data ''access_token'' = Inr new" and "to_string new = Inr new_text"
    and "get_prop data ''refresh_token'' = Inr rotated"
    and "\<not> truthy rotated \<or> (\<exists>s. to_string rotated = Inr s)"
  shows "fst (refreshAccessToken pf st) = Inr new"
    and "localStorage (snd (refreshAccessToken pf st)) ''admin_access_token'' = Some new_text"
    and "calls (snd (refreshAccessToken pf st)) = calls st @ [refresh_request (JSON_stringify pf) st (JStr rt)]"
proof -
  have tok: "getRefreshToken st = JStr rt" "truthy (getRefreshToken st)"
    using assms(1,3,4) by (simp_all add: getRefreshToken_def getItem_def)
  have eq: "doRefreshAccessToken pf st =
      catch_null (doRefresh_response (Response rr) (send (refresh_request (JSON_stringify pf) st (JStr rt)) st))"
    using tok assms(5) by (simp add: doRefreshAccessToken_def fetch_def)
  note ok = doRefresh_response_success [OF assms(6-11)]
  show "fst (refreshAccessToken pf st) = Inr new"
    using eq ok(1) [of "send (refresh_request (JSON_stringify pf) st (JStr rt)) st"]
    by (simp add: refreshAccessToken_fresh [OF assms(2)] catch_null_def split: prod.splits sum.splits)
  show "localStorage (snd (refreshAccessToken pf st)) ''admin_access_token'' = Some new_text"
    using eq ok(2) [of "send (refresh_request (JSON_stringify pf) st (JStr rt)) st"]
    by (simp add: refreshAccessToken_fresh [OF assms(2)])
  show "calls (snd (refreshAccessToken pf st)) = calls st @ [refresh_request (JSON_stringify pf) st (JStr rt)]"
    using refreshAccessToken_calls [of pf st] tok assms(2) by simp
qed

text \<open>
  The store after the refresh response, case by case: it is written only when the response
  is 2xx and its body parses to a value with properties, and then with the string form of
  whatever \<^verbatim>\<open>data.access_token\<close> is (when it has one). No key is ever removed.
\<close>

lemma doRefresh_response_store:
  "localStorage (snd (doRefresh_response out st)) =
     (case out of
        NetworkFail \<Rightarrow> localStorage st
      | Response rr \<Rightarrow>
          if \<not> ok rr then localStorage st
          else (case body_json rr of
                  None \<Rightarrow> localStorage st
                | Some data \<Rightarrow>
                    (case get_prop data ''access_token'' of
                       Inl e \<Rightarrow> localStorage st
                     | Inr at \<Rightarrow>
                         (case to_string at of
                            Inl e \<Rightarrow> localStorage st
                          | Inr a \<Rightarrow>
                              (case get_prop data ''refresh_token'' of
                                 Inl e \<Rightarrow> (localStorage st)(''admin_access_token'' \<mapsto> a)
                               | Inr rt \<Rightarrow>
                                   if truthy rt then
                                     (case to_string rt of
                                        Inl e \<Rightarrow> (localStorage st)(''admin_access_token'' \<mapsto> a)
                                      | Inr r \<Rightarrow>
                                          (localStorage st)(''admin_access_token'' \<mapsto> a,
                                                            ''admin_refresh_token'' \<mapsto> r))
                                   else (localStorage st)(''admin_access_token'' \<mapsto> a))))))"
  by (simp add: doRefresh_response_def setItem_def Let_def
      split: fetch_outcome.splits option.splits sum.splits)

lemma doRefresh_response_dom:
  "dom (localStorage st) \<subseteq> dom (localStorage (snd (doRefresh_response out st)))"
  by (auto simp: doRefresh_response_store split: fetch_outcome.splits option.splits sum.splits)

lemma doRefreshAccessToken_dom:
  "dom (localStorage st) \<subseteq> dom (localStorage (snd (doRefreshAccessToken pf st)))"
  using doRefresh_response_dom [of "send req st" for req]
  by (simp add: doRefreshAccessToken_def fetch_def Let_def split: prod.splits)

lemma refreshAccessToken_dom:
  "dom (localStorage st) \<subseteq> dom (localStorage (snd (refreshAccessToken pf st)))"
proof (cases "doRefreshAccessToken pf st")
  case (Pair r st1)
  with doRefreshAccessToken_dom [of st pf] show ?thesis
    by (simp add: refreshAccessToken_def split: option.splits)
qed

text \<open>
  C5. The claim: the refresh writes the access token entry only when the response is a 2xx
  with an access token in its body (and the refresh token entry only when the body carries a
  new one), every other outcome leaves the store unchanged, and \<^verbatim>\<open>request\<close> itself never
  writes. The lemmas above and \<open>request_store\<close> below give the outcomes that leave the store
  unchanged and that \<^verbatim>\<open>request\<close> writes nothing itself. The part that fails is line 65: it
  stores \<^verbatim>\<open>data.access_token\<close> without looking at it, where line 66 does look at
  \<^verbatim>\<open>data.refresh_token\<close>. For a 200 whose body is the object \<^verbatim>\<open>{}\<close> the refresh resolves to
  \<^verbatim>\<open>undefined\<close> and the store holds the text \<^verbatim>\<open>undefined\<close> as the access token.
\<close>

theorem refresh_body_without_token_writes_store:
  "fst (doRefreshAccessToken (scripted [reply 200 ''OK'' (Some (JObj []))]) (browser stored_tokens)) =
     Inr JUndefined \<and>
   localStorage (snd (doRefreshAccessToken (scripted [reply 200 ''OK'' (Some (JObj []))])
                        (browser stored_tokens))) ''admin_access_token'' = Some ''undefined''"
  by (simp add: run_defs fixture_defs)

section \<open>The paths through \<^verbatim>\<open>request\<close>\<close>

lemma request_first_response:
  assumes "network pf (calls st) (api_request st path options (first_headers st options)) = Response r"
    and "\<not> (status r = 401 \<and> truthy (getToken st))"
  shows "request pf path options st =
           (request_result r, send (api_request st path options (first_headers st options)) st)"
  using assms by (auto simp: request_def request_response_def fetch_def Let_def)

lemma request_response_first:
  assumes "network pf (calls st) (api_request st path options (first_headers st options)) = Response r"
    and "\<not> (status r = 401 \<and> truthy (getToken st))"
  shows "request_response pf path options st =
           (Inr r, send (api_request st path options (first_headers st options)) st)"
  using assms by (auto simp: request_response_def fetch_def Let_def)

lemma request_refresh_absent:
  assumes "network pf (calls st) (api_request st path options (first_headers st options)) = Response r"
    and "status r = 401" and "truthy (getToken st)"
    and "refreshAccessToken pf (send (api_request st path options (first_headers st options)) st) = (Inr v, st2)"
    and "\<not> truthy v"
  shows "request pf path options st = (request_result r, st2)"
  using assms by (auto simp: request_def request_response_def fetch_def Let_def)

lemma request_retry:
  assumes "network pf (calls st) (api_request st path options (first_headers st options)) = Response r"
    and "status r = 401" and "truthy (getToken st)"
    and "refreshAccessToken pf (send (api_request st path options (first_headers st options)) st) = (Inr v, st2)"
    and "truthy v" and "with_bearer v (first_headers st options) = Inr hs2"
    and "network pf (calls st2) (api_request st2 path options hs2) = Response r2"
  shows "request pf path options st =
           (request_result r2, send (api_request st2 path options hs2) st2)"
  using assms by (auto simp: request_def request_response_def fetch_def Let_def)

text \<open>
  A response outside 2xx always makes the call reject. It rejects with \<^verbatim>\<open>AdminApiError\<close> and
  the status of the response when the body is not JSON, or is JSON other than \<^verbatim>\<open>null\<close> whose
  \<^verbatim>\<open>detail\<close> is falsy or has a string form.
\<close>

lemma request_result_failure: "\<not> ok r \<Longrightarrow> \<exists>e. request_result r = Inl e"
  by (simp add: request_result_def Let_def split: sum.splits)

lemma request_result_error:
  assumes "\<not> ok r"
    and "body_json r = None \<or>
         (\<exists>b d. body_json r = Some b \<and> get_prop b ''detail'' = Inr d \<and>
                (\<not> truthy d \<or> (\<exists>m. to_string d = Inr m)))"
  shows "\<exists>m. request_result r = Inl (AdminApiError m (status r))"
  using assms by (auto simp: request_result_def new_AdminApiError_def js_or_def)

lemma request_store:
  "localStorage (snd (request pf path options st)) = localStorage st \<or>
   localStorage (snd (request pf path options st)) =
     localStorage (snd (refreshAccessToken pf (send (api_request st path options (first_headers st options)) st)))"
  by (cases "refreshAccessToken pf (send (api_request st path options (first_headers st options)) st)")
     (auto simp: request_def request_response_def fetch_def Let_def
      split: fetch_outcome.splits sum.splits)

lemma request_dom:
  "dom (localStorage st) \<subseteq> dom (localStorage (snd (request pf path options st)))"
  using request_store [of pf path options st]
    refreshAccessToken_dom [of "send (api_request st path options (first_headers st options)) st" pf]
  by auto

section \<open>A call without a token\<close>

text \<open>
  With no access token stored (or no \<^verbatim>\<open>window\<close>) the headers of the call are the default
  \<^verbatim>\<open>Content-Type\<close> under the caller's own headers, with no \<^verbatim>\<open>Authorization\<close> unless the caller
  passed one (no call site does); the call is the only one made, whatever the response, so the
  refresh endpoint is not called; the store is unchanged; and the result is that of the
  response, an \<^verbatim>\<open>AdminApiError\<close> with its status by \<open>request_result_error\<close> when the status is
  not 2xx and the error body can be read.
\<close>

lemma base_headers_authorization:
  "opt_headers options ''Authorization'' = None \<Longrightarrow> base_headers options ''Authorization'' = None"
  by (simp add: base_headers_def map_add_def)

lemma request_anonymous:
  assumes "\<not> truthy (getToken st)"
  shows "calls (snd (request pf path options st)) =
           calls st @ [api_request st path options (base_headers options)]"
    and "localStorage (snd (request pf path options st)) = localStorage st"
    and "network pf (calls st) (api_request st path options (base_headers options)) = Response r \<Longrightarrow>
         fst (request pf path options st) = request_result r"
  using assms
  by (auto simp: request_def request_response_def fetch_def Let_def first_headers_anonymous
      split: fetch_outcome.splits)

lemma request_anonymous_401:
  assumes "\<not> truthy (getToken st)"
    and "network pf (calls st) (api_request st path options (base_headers options)) = Response r"
    and "status r = 401"
    and "body_json r = None \<or>
         (\<exists>b d. body_json r = Some b \<and> get_prop b ''detail'' = Inr d \<and>
                (\<not> truthy d \<or> (\<exists>m. to_string d = Inr m)))"
  shows "\<exists>m. fst (request pf path options st) = Inl (AdminApiError m 401)"
  using request_anonymous(3) [OF assms(1,2)] request_result_error [of r] assms(3,4)
  by (simp add: ok_def)

text \<open>
  C4. The claim: a call made with no access token stored attaches no \<^verbatim>\<open>Authorization\<close> header,
  makes no refresh attempt even on a 401, and surfaces the 401 as an ApiError. The lemmas above
  give the first two parts and, with \<open>request_anonymous_401\<close>, the third for an error body
  that can be read. It fails for a 401 whose body is the JSON literal \<^verbatim>\<open>null\<close>:
  \<^verbatim>\<open>response.json()\<close> resolves to \<^verbatim>\<open>null\<close>, the \<^verbatim>\<open>catch\<close> of line 107 is
  not entered, the property read \<^verbatim>\<open>body.detail\<close> of line 108 throws, and the call rejects with
  a \<^verbatim>\<open>TypeError\<close> instead of an \<^verbatim>\<open>AdminApiError\<close>.
\<close>

theorem request_anonymous_null_body:
  "fst (request (scripted [reply 401 ''Unauthorized'' (Some JNull)])
          ''/v1/admin/users'' no_options (browser no_tokens)) = Inl TypeError"
  by (simp add: run_defs fixture_defs)

section \<open>A failed refresh\<close>

text \<open>
  When the refresh gives no token, the call ends with the result of its first response, and
  in the state the refresh left.
\<close>

lemma request_refresh_failed:
  assumes "truthy (getToken st)"
    and "network pf (calls st) (api_request st path options (first_headers st options)) = Response r"
    and "status r = 401"
    and "fst (refreshAccessToken pf (send (api_request st path options (first_headers st options)) st)) = Inr v"
    and "\<not> truthy v"
  shows "fst (request pf path options st) = request_result r"
    and "snd (request pf path options st) =
           snd (refreshAccessToken pf (send (api_request st path options (first_headers st options)) st))"
  using request_refresh_absent [OF assms(2,3,1) _ assms(5), of "snd (refreshAccessToken pf (send (api_request st path options (first_headers st options)) st))"]
    assms(4)
  by (simp_all add: prod_eq_iff)

lemma request_refresh_failed_401:
  assumes "truthy (getToken st)"
    and "network pf (calls st) (api_request st path options (first_headers st options)) = Response r"
    and "status r = 401"
    and "fst (refreshAccessToken pf (send (api_request st path options (first_headers st options)) st)) = Inr v"
    and "\<not> truthy v"
    and "body_json r = None \<or>
         (\<exists>b d. body_json r = Some b \<and> get_prop b ''detail'' = Inr d \<and>
                (\<not> truthy d \<or> (\<exists>m. to_string d = Inr m)))"
  shows "\<exists>m. fst (request pf path options st) = Inl (AdminApiError m 401)"
  using request_refresh_failed(1) [OF assms(1-5)] request_result_error [of r] assms(3,6)
  by (simp add: ok_def)

text \<open>
  C3. The claim: \<^verbatim>\<open>refreshAccessToken\<close> never raises; with no refresh token stored, a response
  outside 2xx, a failed transport or a malformed body it resolves to \<^verbatim>\<open>null\<close>; and \<^verbatim>\<open>request\<close>
  then raises the original 401 as an ApiError with status 401. \<open>refreshAccessToken_resolves\<close>,
  \<open>refreshAccessToken_failure\<close> and \<open>request_refresh_failed_401\<close> give the first two parts, and
  the third for an error body that can be read. It fails when the body of the original 401 is
  the JSON literal \<^verbatim>\<open>null\<close>:
  the property read \<^verbatim>\<open>body.detail\<close> of line 108 throws and the call rejects with a
  \<^verbatim>\<open>TypeError\<close>. Here the refresh endpoint answers 500.
\<close>

theorem request_failed_refresh_null_body:
  "fst (request (scripted [reply 401 ''Unauthorized'' (Some JNull),
                           reply 500 ''Internal Server Error'' None])
          ''/v1/admin/users'' no_options (browser stored_tokens)) = Inl TypeError"
  by (simp add: run_defs fixture_defs)

section \<open>Refresh, then the single retry\<close>

text \<open>
  After a refresh that gave a token the call is retried once: the retry is the last call
  made, its response decides the result whatever its status, and the store stays as the
  refresh left it.
\<close>

lemma request_single_retry:
  assumes "truthy (getToken st)"
    and "network pf (calls st) (api_request st path options (first_headers st options)) = Response r"
    and "status r = 401"
    and "refreshAccessToken pf (send (api_request st path options (first_headers st options)) st) = (Inr v, st2)"
    and "truthy v" and "with_bearer v (first_headers st options) = Inr hs2"
    and "network pf (calls st2) (api_request st2 path options hs2) = Response r2"
  shows "fst (request pf path options st) = request_result r2"
    and "calls (snd (request pf path options st)) = calls st2 @ [api_request st2 path options hs2]"
    and "localStorage (snd (request pf path options st)) = localStorage st2"
  using request_retry [OF assms(2,3,1,4,5,6,7)] by simp_all

lemma request_single_retry_401:
  assumes "truthy (getToken st)"
    and "network pf (calls st) (api_request st path options (first_headers st options)) = Response r"
    and "status r = 401"
    and "refreshAccessToken pf (send (api_request st path options (first_headers st options)) st) = (Inr v, st2)"
    and "truthy v" and "with_bearer v (first_headers st options) = Inr hs2"
    and "network pf (calls st2) (api_request st2 path options hs2) = Response r2"
    and "status r2 = 401"
    and "body_json r2 = None \<or>
         (\<exists>b d. body_json r2 = Some b \<and> get_prop b ''detail'' = Inr d \<and>
                (\<not> truthy d \<or> (\<exists>m. to_string d = Inr m)))"
  shows "\<exists>m. fst (request pf path options st) = Inl (AdminApiError m 401)"
  using request_single_retry(1) [OF assms(1-7)] request_result_error [of r2] assms(8,9)
  by (simp add: ok_def)

text \<open>
  C2. The claim: when the retry gets a 401 as well, the call raises an ApiError with status 401
  taken from the retried response, with no second refresh and no second retry.
  \<open>request_single_retry\<close> gives the second part (with \<open>refreshAccessToken_calls\<close>: the refresh
  made at most one call) and \<open>request_single_retry_401\<close> the first for an error body that can
  be read. It fails when the body of the retried 401 is the JSON literal \<^verbatim>\<open>null\<close>: the
  property read \<^verbatim>\<open>body.detail\<close> of line 108 throws and the call rejects with a \<^verbatim>\<open>TypeError\<close>.
\<close>

theorem request_retry_null_body:
  "fst (request (scripted [expired, refreshed, reply 401 ''Unauthorized'' (Some JNull)])
          ''/v1/admin/users'' no_options (browser stored_tokens)) = Inl TypeError"
  by (simp add: run_defs fixture_defs)

text \<open>
  The refresh, from the first 401 on: with the stored tokens \<open>tok\<close> and \<open>rt\<close>, a 2xx refresh
  response whose body carries the string \<open>new\<close> as access token (and a refresh token that is
  absent, falsy or has a string form) makes \<^verbatim>\<open>refreshAccessToken\<close> resolve to \<open>new\<close> and store
  it, and the call goes on to the retry with \<open>new\<close> as bearer.
\<close>

lemma request_refreshed:
  assumes "has_window st" and "refreshPromise st = None"
    and "localStorage st ''admin_access_token'' = Some tok" and "tok \<noteq> []"
    and "localStorage st ''admin_refresh_token'' = Some rt" and "rt \<noteq> []"
    and "first_req = api_request st path options
           ((base_headers options)(''Authorization'' \<mapsto> ''Bearer '' @ tok))"
    and "network pf (calls st) first_req = Response first_resp" and "status first_resp = 401"
    and "refresh_req = refresh_request (JSON_stringify pf) st (JStr rt)"
    and "network pf (calls st @ [first_req]) refresh_req = Response refresh_resp"
    and "ok refresh_resp" and "body_json refresh_resp = Some data"
    and "get_prop data ''access_token'' = Inr (JStr new)" and "new \<noteq> []"
    and "get_prop data ''refresh_token'' = Inr rotated"
    and "\<not> truthy rotated \<or> (\<exists>s. to_string rotated = Inr s)"
    and "retry_req = api_request st path options
           ((base_headers options)(''Authorization'' \<mapsto> ''Bearer '' @ new))"
    and "network pf (calls st @ [first_req, refresh_req]) retry_req = Response retry_resp"
  shows "fst (request pf path options st) = request_result retry_resp"
    and "localStorage (snd (request pf path options st)) ''admin_access_token'' = Some new"
    and "calls (snd (request pf path options st)) = calls st @ [first_req, refresh_req, retry_req]"
    and "localStorage (snd (request pf path options st)) =
           localStorage (snd (refreshAccessToken pf (send first_req st)))"
proof -
  have tok: "getToken st = JStr tok" "truthy (getToken st)"
    using getToken_stored [OF assms(1,3,4)] assms(4) by simp_all
  have hs: "first_headers st options =
              (base_headers options)(''Authorization'' \<mapsto> ''Bearer '' @ tok)"
    using tok by (simp add: first_headers_token assms(4))
  let ?st1 = "send first_req st"
  let ?st2 = "snd (refreshAccessToken pf ?st1)"
  have r: "fst (refreshAccessToken pf ?st1) = Inr (JStr new)"
    "localStorage ?st2 ''admin_access_token'' = Some new"
    "calls ?st2 = calls st @ [first_req, refresh_req]"
    using refresh_success [of ?st1 rt pf refresh_resp data "JStr new" new rotated] assms
    by simp_all
  have wb: "with_bearer (JStr new) (first_headers st options) =
              Inr ((base_headers options)(''Authorization'' \<mapsto> ''Bearer '' @ new))"
    by (simp add: with_bearer_def hs)
  have retry_req: "api_request ?st2 path options
                     ((base_headers options)(''Authorization'' \<mapsto> ''Bearer '' @ new)) = retry_req"
    using assms(18) by (simp add: api_request_def)
  have "request pf path options st = (request_result retry_resp, send retry_req ?st2)"
    using request_retry [of pf st path options first_resp "JStr new" ?st2
        "(base_headers options)(''Authorization'' \<mapsto> ''Bearer '' @ new)" retry_resp]
      r assms tok hs wb retry_req
    by (simp add: prod_eq_iff)
  then show "fst (request pf path options st) = request_result retry_resp"
    and "localStorage (snd (request pf path options st)) ''admin_access_token'' = Some new"
    and "calls (snd (request pf path options st)) = calls st @ [first_req, refresh_req, retry_req]"
    and "localStorage (snd (request pf path options st)) =
           localStorage (snd (refreshAccessToken pf (send first_req st)))"
    using r assms(7) by simp_all
qed

text \<open>
  C9. A call of \<^verbatim>\<open>request\<close> made with a stored access token, whose first response is
  a 401, whose refresh succeeds with a new access token (a non-empty string, in a 2xx body
  whose refresh token, if any, can be stored) and whose retried call returns 200 with a JSON
  body, resolves to that body, and the store then holds the refreshed token as the access
  token. The three calls made are the first call, the refresh and the retry. The scenario of
  the specification, \<^verbatim>\<open>request("/v1/admin/users")\<close> with the body \<^verbatim>\<open>{items: [], total: 0}\<close>,
  is the instance checked after the theorem.
\<close>

theorem request_refresh_retry_success:
  assumes "has_window st" and "refreshPromise st = None"
    and "localStorage st ''admin_access_token'' = Some tok" and "tok \<noteq> []"
    and "localStorage st ''admin_refresh_token'' = Some rt" and "rt \<noteq> []"
    and "first_req = api_request st path options
           ((base_headers options)(''Authorization'' \<mapsto> ''Bearer '' @ tok))"
    and "network pf (calls st) first_req = Response first_resp" and "status first_resp = 401"
    and "refresh_req = refresh_request (JSON_stringify pf) st (JStr rt)"
    and "network pf (calls st @ [first_req]) refresh_req = Response refresh_resp"
    and "ok refresh_resp" and "body_json refresh_resp = Some data"
    and "get_prop data ''access_token'' = Inr (JStr new)" and "new \<noteq> []"
    and "get_prop data ''refresh_token'' = Inr rotated"
    and "\<not> truthy rotated \<or> (\<exists>s. to_string rotated = Inr s)"
    and "retry_req = api_request st path options
           ((base_headers options)(''Authorization'' \<mapsto> ''Bearer '' @ new))"
    and "network pf (calls st @ [first_req, refresh_req]) retry_req = Response retry_resp"
    and "status retry_resp = 200" and "body_json retry_resp = Some v"
  shows "fst (request pf path options st) = Inr v \<and>
         localStorage (snd (request pf path options st)) ''admin_access_token'' = Some new \<and>
         calls (snd (request pf path options st)) = calls st @ [first_req, refresh_req, retry_req]"
proof -
  have "request_result retry_resp = Inr v"
    using assms(20,21) by (simp add: request_result_def ok_def)
  with request_refreshed [OF assms(1-19)] show ?thesis by simp
qed

theorem request_refresh_retry_success_witness:
  "fst (request (scripted [expired, refreshed, reply 200 ''OK'' (Some users_page)])
          ''/v1/admin/users'' no_options (browser stored_tokens)) = Inr users_page \<and>
   localStorage (snd (request (scripted [expired, refreshed, reply 200 ''OK'' (Some users_page)])
          ''/v1/admin/users'' no_options (browser stored_tokens))) ''admin_access_token'' = Some ''new-token''"
  using request_refresh_retry_success
    [where st = "browser stored_tokens" and path = "''/v1/admin/users''" and options = no_options
       and pf = "scripted [expired, refreshed, reply 200 ''OK'' (Some users_page)]"
       and tok = "''old-token''" and rt = "''refresh-1''" and new = "''new-token''"
       and rotated = JUndefined
       and v = users_page and data = "JObj [(''access_token'', JStr ''new-token'')]"
       and first_resp = "\<lparr>status = 401, statusText = ''Unauthorized'', body_json = Some (JObj [(''detail'', JStr ''Token expired'')])\<rparr>"
       and refresh_resp = "\<lparr>status = 200, statusText = ''OK'', body_json = Some (JObj [(''access_token'', JStr ''new-token'')])\<rparr>"
       and retry_resp = "\<lparr>status = 200, statusText = ''OK'', body_json = Some users_page\<rparr>",
     OF _ _ _ _ _ _ refl _ _ refl _ _ _ _ _ _ _ refl]
  by (simp add: fixture_defs ok_def)

text \<open>
  No rollback. When the refresh has succeeded and written a new access token but the
  retried call fails with a status outside 2xx, the call rejects, whatever the error, and the
  store still holds the refreshed token: the store after the call is the store the refresh
  left, and no call of \<^verbatim>\<open>request\<close> removes a key from the store.
\<close>

lemma request_keeps_store:
  assumes "has_window st" and "refreshPromise st = None"
    and "localStorage st ''admin_access_token'' = Some tok" and "tok \<noteq> []"
    and "localStorage st ''admin_refresh_token'' = Some rt" and "rt \<noteq> []"
    and "first_req = api_request st path options
           ((base_headers options)(''Authorization'' \<mapsto> ''Bearer '' @ tok))"
    and "network pf (calls st) first_req = Response first_resp" and "status first_resp = 401"
    and "refresh_req = refresh_request (JSON_stringify pf) st (JStr rt)"
    and "network pf (calls st @ [first_req]) refresh_req = Response refresh_resp"
    and "ok refresh_resp" and "body_json refresh_resp = Some data"
    and "get_prop data ''access_token'' = Inr (JStr new)" and "new \<noteq> []"
    and "get_prop data ''refresh_token'' = Inr rotated"
    and "\<not> truthy rotated \<or> (\<exists>s. to_string rotated = Inr s)"
    and "retry_req = api_request st path options
           ((base_headers options)(''Authorization'' \<mapsto> ''Bearer '' @ new))"
    and "network pf (calls st @ [first_req, refresh_req]) retry_req = Response retry_resp"
    and "\<not> ok retry_resp"
  shows "\<exists>e. fst (request pf path options st) = Inl e"
    and "localStorage (snd (request pf path options st)) ''admin_access_token'' = Some new"
    and "localStorage (snd (request pf path options st)) =
           localStorage (snd (refreshAccessToken pf (send first_req st)))"
    and "dom (localStorage st) \<subseteq> dom (localStorage (snd (request pf path options st)))"
    and "body_json retry_resp = None \<or>
         (\<exists>b d. body_json retry_resp = Some b \<and> get_prop b ''detail'' = Inr d \<and>
                (\<not> truthy d \<or> (\<exists>m. to_string d = Inr m))) \<Longrightarrow>
         \<exists>m. fst (request pf path options st) = Inl (AdminApiError m (status retry_resp))"
  using request_refreshed [OF assms(1-19)] request_result_failure [OF assms(20)]
    request_result_error [OF assms(20)] request_dom [of st pf path options]
  by simp_all

text \<open>
  C10. The claim: when a refresh has succeeded and written a new access token and the retried
  call then fails with any status outside 2xx, the ApiError that is raised leaves the store
  holding the refreshed token, and \<^verbatim>\<open>request\<close> removes or reverts no stored token on any
  error path. \<open>request_keeps_store\<close> gives the store for every such call, and the ApiError for
  an error body that can be read. When the body of the failed retry is the JSON literal
  \<^verbatim>\<open>null\<close> the refreshed token is kept, but what the call raises is the \<^verbatim>\<open>TypeError\<close> of the
  property read \<^verbatim>\<open>body.detail\<close> at line 108, not an ApiError.
\<close>

theorem request_failed_retry_null_body:
  "fst (request (scripted [expired, refreshed, reply 503 ''Service Unavailable'' (Some JNull)])
          ''/v1/admin/users'' no_options (browser stored_tokens)) = Inl TypeError \<and>
   localStorage (snd (request (scripted [expired, refreshed,
                                reply 503 ''Service Unavailable'' (Some JNull)])
          ''/v1/admin/users'' no_options (browser stored_tokens))) ''admin_access_token'' =
     Some ''new-token''"
  by (simp add: run_defs fixture_defs)

section \<open>The error of a failed response\<close>

text \<open>
  C8, as stated: the message of the error is the body's \<^verbatim>\<open>detail\<close>, and the HTTP status text
  when the body is not valid JSON or has no \<^verbatim>\<open>detail\<close>. On the code a JSON body without
  \<^verbatim>\<open>detail\<close> gives the fixed text of line 108, not the status text.
\<close>

theorem request_error_message_counterexample:
  "fst (request (scripted [reply 500 ''Internal Server Error'' (Some (JObj []))])
          ''/v1/admin/users'' no_options (browser no_tokens)) =
     Inl (AdminApiError ''Request failed'' 500)"
  by (simp add: run_defs fixture_defs)

text \<open>
  C8, amended. For a call whose final response (the first one, or the one of the retry) has
  a status outside 2xx:
  when the body is not valid JSON, the call raises \<^verbatim>\<open>AdminApiError\<close> with the status of the
  response and its status text as message (\<^verbatim>\<open>Request failed\<close> when the status text is empty),
  and nothing else: no exception of the JSON parsing escapes;
  when the body is JSON whose \<^verbatim>\<open>detail\<close> can be read (any JSON but \<^verbatim>\<open>null\<close>), the call raises
  \<^verbatim>\<open>AdminApiError\<close> with the status of the response and the message \<^verbatim>\<open>Request failed\<close> if
  \<^verbatim>\<open>detail\<close> is absent or falsy, and the string form of \<^verbatim>\<open>detail\<close> if it is truthy and has one
  (a string is its own string form).
  The body \<^verbatim>\<open>null\<close> and a truthy \<^verbatim>\<open>detail\<close> without a string form are left out: see C2 to C4.
\<close>

theorem request_error_message:
  assumes "request_response pf path options st = (Inr r, st')" and "\<not> ok r"
  shows "(body_json r = None \<longrightarrow>
            fst (request pf path options st) =
              Inl (AdminApiError (if statusText r = [] then ''Request failed'' else statusText r)
                     (status r))) \<and>
         (\<forall>b detail. body_json r = Some b \<longrightarrow> get_prop b ''detail'' = Inr detail \<longrightarrow>
            (\<not> truthy detail \<longrightarrow>
               fst (request pf path options st) = Inl (AdminApiError ''Request failed'' (status r))) \<and>
            (\<forall>message. truthy detail \<longrightarrow> to_string detail = Inr message \<longrightarrow>
               fst (request pf path options st) = Inl (AdminApiError message (status r))))"
  using assms by (simp add: request_def request_result_def new_AdminApiError_def js_or_def)

theorem request_error_message_witness:
  "fst (request (scripted [reply 404 ''Not Found'' (Some (JObj [(''detail'', JStr ''User not found'')]))])
          ''/v1/admin/users/42'' no_options (browser no_tokens)) =
     Inl (AdminApiError ''User not found'' 404) \<and>
   fst (request (scripted [reply 502 ''Bad Gateway'' None])
          ''/v1/admin/users/42'' no_options (browser no_tokens)) =
     Inl (AdminApiError ''Bad Gateway'' 502) \<and>
   fst (request (scripted [reply 502 [] None])
          ''/v1/admin/users/42'' no_options (browser no_tokens)) =
     Inl (AdminApiError ''Request failed'' 502) \<and>
   fst (request (scripted [reply 422 ''Unprocessable Entity'' (Some (JObj [(''detail'', JStr [])]))])
          ''/v1/admin/users/42'' no_options (browser no_tokens)) =
     Inl (AdminApiError ''Request failed'' 422) \<and>
   fst (request (scripted [expired, refreshed,
                   reply 401 ''Unauthorized'' (Some (JObj [(''detail'', JStr ''Token revoked'')]))])
          ''/v1/admin/users'' no_options (browser stored_tokens)) =
     Inl (AdminApiError ''Token revoked'' 401)"
proof -
  let ?st = "browser no_tokens"
  let ?req = "api_request ?st ''/v1/admin/users/42'' no_options (first_headers ?st no_options)"
  have rr: "request_response (scripted [Response r]) ''/v1/admin/users/42'' no_options ?st =
      (Inr r, send ?req ?st)" for r
    by (rule request_response_first)
       (simp_all add: getToken_def getItem_def scripted_def browser_def no_tokens_def)
  have a: "fst (request (scripted [reply 404 ''Not Found'' (Some (JObj [(''detail'', JStr ''User not found'')]))])
          ''/v1/admin/users/42'' no_options ?st) = Inl (AdminApiError ''User not found'' 404)"
    using request_error_message [OF rr [of "\<lparr>status = 404, statusText = ''Not Found'',
        body_json = Some (JObj [(''detail'', JStr ''User not found'')])\<rparr>"]]
    by (simp add: ok_def reply_def)
  have b: "fst (request (scripted [reply 502 ''Bad Gateway'' None])
          ''/v1/admin/users/42'' no_options ?st) = Inl (AdminApiError ''Bad Gateway'' 502)"
    using request_error_message [OF rr [of "\<lparr>status = 502, statusText = ''Bad Gateway'', body_json = None\<rparr>"]]
    by (simp add: ok_def reply_def)
  have c: "fst (request (scripted [reply 502 [] None])
          ''/v1/admin/users/42'' no_options ?st) = Inl (AdminApiError ''Request failed'' 502)"
    using request_error_message [OF rr [of "\<lparr>status = 502, statusText = [], body_json = None\<rparr>"]]
    by (simp add: ok_def reply_def)
  have d: "fst (request (scripted [reply 422 ''Unprocessable Entity'' (Some (JObj [(''detail'', JStr [])]))])
          ''/v1/admin/users/42'' no_options ?st) = Inl (AdminApiError ''Request failed'' 422)"
    using request_error_message [OF rr [of "\<lparr>status = 422, statusText = ''Unprocessable Entity'',
        body_json = Some (JObj [(''detail'', JStr [])])\<rparr>"]]
    by (simp add: ok_def reply_def)
  let ?retried = "\<lparr>status = 401, statusText = ''Unauthorized'',
                     body_json = Some (JObj [(''detail'', JStr ''Token revoked'')])\<rparr>"
  have "fst (request_response (scripted [expired, refreshed, Response ?retried])
               ''/v1/admin/users'' no_options (browser stored_tokens)) = Inr ?retried"
    by (simp add: run_defs fixture_defs)
  then obtain st' where "request_response (scripted [expired, refreshed, Response ?retried])
               ''/v1/admin/users'' no_options (browser stored_tokens) = (Inr ?retried, st')"
    by (metis prod.collapse)
  from request_error_message [OF this]
  have e: "fst (request (scripted [expired, refreshed,
                   reply 401 ''Unauthorized'' (Some (JObj [(''detail'', JStr ''Token revoked'')]))])
          ''/v1/admin/users'' no_options (browser stored_tokens)) =
     Inl (AdminApiError ''Token revoked'' 401)"
    by (simp add: ok_def reply_def)
  from a b c d e show ?thesis by simp
qed

section \<open>Login\<close>

lemma login_rejects:
  "fst (adminLogin pf email password st) = Inl e \<Longrightarrow>
   fst (login pf email password st) = Inl e \<and>
   localStorage (snd (login pf email password st)) = localStorage (snd (adminLogin pf email password st))"
  by (cases "adminLogin pf email password st") (simp add: login_def)

lemma adminLogin_store [simp]:
  "localStorage (snd (adminLogin pf email password st)) = localStorage st"
  by (simp add: adminLogin_def fetch_def Let_def
      split: fetch_outcome.splits option.splits sum.splits)

lemma verify_request_send [simp]:
  "verify_request (send req st) access_token = verify_request st access_token"
  by (simp add: verify_request_def split: sum.splits)

text \<open>
  C6. The privilege gate. When the credential check answers 2xx and the verify endpoint,
  called with the access token of that answer, answers outside 2xx, \<^verbatim>\<open>adminLogin\<close> raises
  \<^verbatim>\<open>AdminApiError\<close> with status 403 and the access-denied message, which is not the message
  for invalid credentials; \<^verbatim>\<open>login\<close> rejects with the same error, and neither the store nor the
  signed-in user changes. (The verify endpoint is called when the body of the credential
  check parses to a value whose \<^verbatim>\<open>access_token\<close> can be read and put into the
  \<^verbatim>\<open>Authorization\<close> header: \<open>verify\<close> is that call.)
\<close>

theorem login_privilege_gate:
  assumes "network pf (calls st) (login_request (JSON_stringify pf) st email password) = Response res"
    and "ok res" and "body_json res = Some data"
    and "get_prop data ''access_token'' = Inr access_token"
    and "verify_request st access_token = Inr verify"
    and "network pf (calls st @ [login_request (JSON_stringify pf) st email password]) verify =
           Response verifyRes"
    and "\<not> ok verifyRes"
  shows "fst (adminLogin pf email password st) =
           Inl (AdminApiError ''Access denied. This account does not have admin privileges.'' 403) \<and>
         fst (login pf email password st) =
           Inl (AdminApiError ''Access denied. This account does not have admin privileges.'' 403) \<and>
         localStorage (snd (login pf email password st)) = localStorage st \<and>
         user (snd (login pf email password st)) = user st \<and>
         ''Access denied. This account does not have admin privileges.'' \<noteq> ''Invalid email or password.''"
proof -
  have v: "verify_request (send (login_request (JSON_stringify pf) st email password) st) access_token =
             Inr verify"
    using assms(5) by simp
  have a: "adminLogin pf email password st =
      (Inl (AdminApiError ''Access denied. This account does not have admin privileges.'' 403),
       send verify (send (login_request (JSON_stringify pf) st email password) st))"
    using assms v by (simp add: adminLogin_def fetch_def)
  then show ?thesis by (simp add: login_def)
qed

theorem login_privilege_gate_witness:
  "fst (login (scripted [reply 200 ''OK'' (Some credentials), reply 403 ''Forbidden'' None])
          ''a@b.com'' ''x'' (login_page no_tokens)) =
     Inl (AdminApiError ''Access denied. This account does not have admin privileges.'' 403) \<and>
   localStorage (snd (login (scripted [reply 200 ''OK'' (Some credentials), reply 403 ''Forbidden'' None])
          ''a@b.com'' ''x'' (login_page no_tokens))) = no_tokens"
  using login_privilege_gate
    [where st = "login_page no_tokens" and email = "''a@b.com''" and password = "''x''"
       and pf = "scripted [reply 200 ''OK'' (Some credentials), reply 403 ''Forbidden'' None]"
       and res = "\<lparr>status = 200, statusText = ''OK'', body_json = Some credentials\<rparr>"
       and data = credentials and access_token = "JStr ''user-token''"
       and verify = "\<lparr>url = ''http://localhost:8000/v1/admin/auth/verify'', http_method = None,
                       headers = [''Authorization'' \<mapsto> ''Bearer user-token''], body = JUndefined\<rparr>"
       and verifyRes = "\<lparr>status = 403, statusText = ''Forbidden'', body_json = None\<rparr>"]
  by (simp add: fixture_defs login_page_def credentials_def ok_def verify_request_def API_BASE_def)

text \<open>
  C7, as stated: the message is determined by the status, and every status other than 400,
  401 and 403 gives the server-unavailable message. On the code the same status 500 gives
  \<^verbatim>\<open>Login failed\<close> for a body that is not JSON, and the body's \<^verbatim>\<open>detail\<close> when it has one.
\<close>

theorem adminLogin_message_counterexample:
  "fst (adminLogin (scripted [reply 500 ''Internal Server Error'' None]) ''a@b.com'' ''x''
          (login_page no_tokens)) = Inl (AdminApiError ''Login failed'' 500) \<and>
   fst (adminLogin (scripted [reply 500 ''Internal Server Error''
                                (Some (JObj [(''detail'', JStr ''Database is down'')]))])
          ''a@b.com'' ''x'' (login_page no_tokens)) = Inl (AdminApiError ''Database is down'' 500)"
  by (simp add: adminLogin_def new_AdminApiError_def fetch_def js_or_def fixture_defs
      login_page_def ok_def)

text \<open>
  C7, amended. When the credential check answers outside 2xx:
  on 401 and 400 \<^verbatim>\<open>adminLogin\<close> raises \<^verbatim>\<open>AdminApiError\<close> with the status of the response and the
  invalid-credentials message, and on 403 with the account-disabled message, whatever the body;
  on any other status it raises \<^verbatim>\<open>AdminApiError\<close> with the status of the response and the
  message \<^verbatim>\<open>Login failed\<close> when the body is not valid JSON, and, when the body is JSON whose
  \<^verbatim>\<open>detail\<close> can be read (any JSON but \<^verbatim>\<open>null\<close>), the server-unavailable message if \<^verbatim>\<open>detail\<close>
  is absent or falsy and the string form of \<^verbatim>\<open>detail\<close> if it is truthy and has one.
  \<^verbatim>\<open>login\<close> rejects with whatever \<^verbatim>\<open>adminLogin\<close> rejects with and writes nothing; in particular
  \<^verbatim>\<open>login("a@b.com", "x")\<close> on a 401 rejects with \<^verbatim>\<open>Invalid email or password.\<close> and status
  401, the first instance checked after the theorem. On a status other than 400, 401 and 403,
  the body \<^verbatim>\<open>null\<close> and a truthy \<^verbatim>\<open>detail\<close> without a string form are left out.
\<close>

theorem adminLogin_status_mapping:
  assumes "network pf (calls st) (login_request (JSON_stringify pf) st email password) = Response res"
    and "\<not> ok res"
  shows "(status res = 401 \<or> status res = 400 \<longrightarrow>
            fst (adminLogin pf email password st) =
              Inl (AdminApiError ''Invalid email or password.'' (status res))) \<and>
         (status res = 403 \<longrightarrow>
            fst (adminLogin pf email password st) =
              Inl (AdminApiError ''This account has been disabled. Contact your administrator.'' 403)) \<and>
         (status res \<noteq> 401 \<and> status res \<noteq> 400 \<and> status res \<noteq> 403 \<longrightarrow>
            (body_json res = None \<longrightarrow>
               fst (adminLogin pf email password st) = Inl (AdminApiError ''Login failed'' (status res))) \<and>
            (\<forall>b detail. body_json res = Some b \<longrightarrow> get_prop b ''detail'' = Inr detail \<longrightarrow>
               (\<not> truthy detail \<longrightarrow>
                  fst (adminLogin pf email password st) =
                    Inl (AdminApiError ''Authentication server unavailable. Try again later.''
                           (status res))) \<and>
               (\<forall>message. truthy detail \<longrightarrow> to_string detail = Inr message \<longrightarrow>
                  fst (adminLogin pf email password st) =
                    Inl (AdminApiError message (status res))))) \<and>
         (\<forall>e. fst (adminLogin pf email password st) = Inl e \<longrightarrow>
            fst (login pf email password st) = Inl e \<and>
            localStorage (snd (login pf email password st)) = localStorage st)"
proof -
  have "adminLogin pf email password st =
     (let st1 = send (login_request (JSON_stringify pf) st email password) st;
          body = (case body_json res of None \<Rightarrow> JObj [(''detail'', JStr ''Login failed'')] | Some b \<Rightarrow> b)
      in if status res = 401 \<or> status res = 400 then
           (Inl (AdminApiError ''Invalid email or password.'' (status res)), st1)
         else if status res = 403 then
           (Inl (AdminApiError ''This account has been disabled. Contact your administrator.'' 403), st1)
         else (case get_prop body ''detail'' of
                 Inl e \<Rightarrow> (Inl e, st1)
               | Inr detail \<Rightarrow>
                   (Inl (new_AdminApiError
                           (js_or detail (JStr ''Authentication server unavailable. Try again later.''))
                           (status res)), st1)))"
    using assms by (simp add: adminLogin_def fetch_def Let_def)
  then have "(status res = 401 \<or> status res = 400 \<longrightarrow>
            fst (adminLogin pf email password st) =
              Inl (AdminApiError ''Invalid email or password.'' (status res)))"
    and "(status res = 403 \<longrightarrow>
            fst (adminLogin pf email password st) =
              Inl (AdminApiError ''This account has been disabled. Contact your administrator.'' 403))"
    and "(status res \<noteq> 401 \<and> status res \<noteq> 400 \<and> status res \<noteq> 403 \<longrightarrow>
            (body_json res = None \<longrightarrow>
               fst (adminLogin pf email password st) = Inl (AdminApiError ''Login failed'' (status res))) \<and>
            (\<forall>b detail. body_json res = Some b \<longrightarrow> get_prop b ''detail'' = Inr detail \<longrightarrow>
               (\<not> truthy detail \<longrightarrow>
                  fst (adminLogin pf email password st) =
                    Inl (AdminApiError ''Authentication server unavailable. Try again later.''
                           (status res))) \<and>
               (\<forall>message. truthy detail \<longrightarrow> to_string detail = Inr message \<longrightarrow>
                  fst (adminLogin pf email password st) =
                    Inl (AdminApiError message (status res)))))"
    by (simp_all add: Let_def js_or_def new_AdminApiError_def)
  moreover have "\<forall>e. fst (adminLogin pf email password st) = Inl e \<longrightarrow>
            fst (login pf email password st) = Inl e \<and>
            localStorage (snd (login pf email password st)) = localStorage st"
    using login_rejects [of pf email password st] by simp
  ultimately show ?thesis by blast
qed

theorem adminLogin_status_mapping_witness:
  "fst (login (scripted [reply 401 ''Unauthorized'' None]) ''a@b.com'' ''x'' (login_page no_tokens)) =
     Inl (AdminApiError ''Invalid email or password.'' 401) \<and>
   fst (adminLogin (scripted [reply 400 ''Bad Request'' None]) ''a@b.com'' ''x'' (login_page no_tokens)) =
     Inl (AdminApiError ''Invalid email or password.'' 400) \<and>
   fst (adminLogin (scripted [reply 403 ''Forbidden'' None]) ''a@b.com'' ''x'' (login_page no_tokens)) =
     Inl (AdminApiError ''This account has been disabled. Contact your administrator.'' 403) \<and>
   fst (adminLogin (scripted [reply 502 ''Bad Gateway'' None]) ''a@b.com'' ''x'' (login_page no_tokens)) =
     Inl (AdminApiError ''Login failed'' 502) \<and>
   fst (adminLogin (scripted [reply 500 ''Internal Server Error'' (Some (JObj []))]) ''a@b.com'' ''x''
          (login_page no_tokens)) =
     Inl (AdminApiError ''Authentication server unavailable. Try again later.'' 500) \<and>
   fst (adminLogin (scripted [reply 500 ''Internal Server Error''
                                (Some (JObj [(''detail'', JStr ''Database is down'')]))])
          ''a@b.com'' ''x'' (login_page no_tokens)) = Inl (AdminApiError ''Database is down'' 500)"
proof -
  let ?st = "login_page no_tokens"
  have a: "fst (login (scripted [reply 401 ''Unauthorized'' None]) ''a@b.com'' ''x'' ?st) =
     Inl (AdminApiError ''Invalid email or password.'' 401)"
    using adminLogin_status_mapping
      [where st = ?st and pf = "scripted [reply 401 ''Unauthorized'' None]"
         and email = "''a@b.com''" and password = "''x''"
         and res = "\<lparr>status = 401, statusText = ''Unauthorized'', body_json = None\<rparr>"]
    by (simp add: fixture_defs login_page_def ok_def)
  have b: "fst (adminLogin (scripted [reply 400 ''Bad Request'' None]) ''a@b.com'' ''x'' ?st) =
     Inl (AdminApiError ''Invalid email or password.'' 400)"
    using adminLogin_status_mapping
      [where st = ?st and pf = "scripted [reply 400 ''Bad Request'' None]"
         and email = "''a@b.com''" and password = "''x''"
         and res = "\<lparr>status = 400, statusText = ''Bad Request'', body_json = None\<rparr>"]
    by (simp add: fixture_defs login_page_def ok_def)
  have c: "fst (adminLogin (scripted [reply 403 ''Forbidden'' None]) ''a@b.com'' ''x'' ?st) =
     Inl (AdminApiError ''This account has been disabled. Contact your administrator.'' 403)"
    using adminLogin_status_mapping
      [where st = ?st and pf = "scripted [reply 403 ''Forbidden'' None]"
         and email = "''a@b.com''" and password = "''x''"
         and res = "\<lparr>status = 403, statusText = ''Forbidden'', body_json = None\<rparr>"]
    by (simp add: fixture_defs login_page_def ok_def)
  have d: "fst (adminLogin (scripted [reply 502 ''Bad Gateway'' None]) ''a@b.com'' ''x'' ?st) =
     Inl (AdminApiError ''Login failed'' 502)"
    using adminLogin_status_mapping
      [where st = ?st and pf = "scripted [reply 502 ''Bad Gateway'' None]"
         and email = "''a@b.com''" and password = "''x''"
         and res = "\<lparr>status = 502, statusText = ''Bad Gateway'', body_json = None\<rparr>"]
    by (simp add: fixture_defs login_page_def ok_def)
  have e: "fst (adminLogin (scripted [reply 500 ''Internal Server Error'' (Some (JObj []))]) ''a@b.com'' ''x'' ?st) =
     Inl (AdminApiError ''Authentication server unavailable. Try again later.'' 500)"
    using adminLogin_status_mapping
      [where st = ?st and pf = "scripted [reply 500 ''Internal Server Error'' (Some (JObj []))]"
         and email = "''a@b.com''" and password = "''x''"
         and res = "\<lparr>status = 500, statusText = ''Internal Server Error'', body_json = Some (JObj [])\<rparr>"]
    by (simp add: fixture_defs login_page_def ok_def)
  have f: "fst (adminLogin (scripted [reply 500 ''Internal Server Error''
                                (Some (JObj [(''detail'', JStr ''Database is down'')]))])
          ''a@b.com'' ''x'' ?st) = Inl (AdminApiError ''Database is down'' 500)"
    using adminLogin_status_mapping
      [where st = ?st and pf = "scripted [reply 500 ''Internal Server Error''
                                (Some (JObj [(''detail'', JStr ''Database is down'')]))]"
         and email = "''a@b.com''" and password = "''x''"
         and res = "\<lparr>status = 500, statusText = ''Internal Server Error'',
                      body_json = Some (JObj [(''detail'', JStr ''Database is down'')])\<rparr>"]
    by (simp add: fixture_defs login_page_def ok_def)
  from a b c d e f show ?thesis by simp
qed

section \<open>Single flight\<close>

lemma send_client [simp]:
  "handle (send req st) = handle st" "promises (send req st) = promises st"
  "frames (send req st) = frames st"
  by (simp_all add: send_def)

lemma new_call_simps [simp]:
  "handle (new_call path options st) = handle st"
  "promises (new_call path options st) = promises st"
  "frames (new_call path options st) = frames st @
     [\<lparr>f_path = path, f_options = options, f_token = getToken st,
       f_headers = first_headers st options,
       f_awaited = None, f_newToken = None, f_stage = AwaitResponse\<rparr>]"
  by (simp_all add: new_call_def Let_def)

lemma set_frame_simps [simp]:
  "handle (set_frame k f st) = handle st"
  "promises (set_frame k f st) = promises st"
  "frames (set_frame k f st) = (frames st)[k := f]"
  "calls (set_frame k f st) = calls st"
  "localStorage (set_frame k f st) = localStorage st"
  by (simp_all add: set_frame_def)

lemma start_refresh_simps [simp]:
  "handle (start_refresh sf st) = Some (length (promises st))"
  "frames (start_refresh sf st) = frames st"
  "promises (start_refresh sf st) =
     promises st @ [if truthy (getRefreshToken st) then Pending else Settled (Inr JNull)]"
  "calls (start_refresh sf st) =
     calls st @ (if truthy (getRefreshToken st)
                 then [refresh_request sf st (getRefreshToken st)] else [])"
  "localStorage (start_refresh sf st) = localStorage st"
  by (simp_all add: start_refresh_def Let_def)

lemma doRefresh_response_client [simp]:
  "handle (snd (doRefresh_response out st)) = handle st"
  "promises (snd (doRefresh_response out st)) = promises st"
  "frames (snd (doRefresh_response out st)) = frames st"
  by (simp_all add: doRefresh_response_def setItem_def Let_def
      split: fetch_outcome.splits option.splits sum.splits)

lemma on_refresh_response_frames:
  assumes "on_refresh_response q out st = Some st'"
  shows "frames st' = frames st" and "handle st' = handle st"
proof -
  obtain x st1 where cn: "catch_null (doRefresh_response out st) = (x, st1)"
    by (cases "catch_null (doRefresh_response out st)")
  then have st1: "st1 = snd (catch_null (doRefresh_response out st))" by simp
  from assms cn have "st' = st1\<lparr>promises := (promises st1)[q := Settled x]\<rparr>"
    by (simp add: on_refresh_response_def split: if_splits)
  then show "frames st' = frames st" and "handle st' = handle st"
    by (simp_all add: st1)
qed

lemma consistentI:
  assumes "\<And>p. in_flight st p \<Longrightarrow> handle st = Some p"
    and "\<And>p. handle st = Some p \<Longrightarrow> p < length (promises st)"
    and "\<And>i p. began_refresh st i p \<Longrightarrow> handle st = Some p"
    and "\<And>i j p q. began_refresh st i p \<Longrightarrow> began_refresh st j q \<Longrightarrow> i = j"
    and "\<And>i response began p. i < length (frames st) \<Longrightarrow>
           f_stage (frames st ! i) = AwaitRefresh response began p \<Longrightarrow>
           p < length (promises st) \<and> f_awaited (frames st ! i) = Some p"
    and "\<And>i. i < length (frames st) \<Longrightarrow> f_stage (frames st ! i) = AwaitResponse \<Longrightarrow>
           f_awaited (frames st ! i) = None \<and> f_newToken (frames st ! i) = None"
    and "\<And>i p r. i < length (frames st) \<Longrightarrow> f_awaited (frames st ! i) = Some p \<Longrightarrow>
           f_newToken (frames st ! i) = Some r \<Longrightarrow>
           p < length (promises st) \<and> promises st ! p = Settled r"
  shows "consistent st"
  unfolding consistent_def
  apply (intro conjI allI impI)
  subgoal by (rule assms(1))
  subgoal by (rule assms(2))
  subgoal by (rule assms(3))
  subgoal by (rule assms(4))
  subgoal using assms(5) by fast
  subgoal using assms(5) by fast
  subgoal using assms(6) by fast
  subgoal using assms(6) by fast
  subgoal using assms(7) by fast
  subgoal using assms(7) by fast
  done

lemma consistentD:
  assumes "consistent st"
  shows "in_flight st p \<Longrightarrow> handle st = Some p"
    and "handle st = Some p \<Longrightarrow> p < length (promises st)"
    and "began_refresh st i p \<Longrightarrow> handle st = Some p"
    and "began_refresh st i p \<Longrightarrow> began_refresh st j q \<Longrightarrow> i = j"
    and "i < length (frames st) \<Longrightarrow> f_stage (frames st ! i) = AwaitRefresh response began p \<Longrightarrow>
           p < length (promises st) \<and> f_awaited (frames st ! i) = Some p"
    and "i < length (frames st) \<Longrightarrow> f_stage (frames st ! i) = AwaitResponse \<Longrightarrow>
           f_awaited (frames st ! i) = None \<and> f_newToken (frames st ! i) = None"
    and "i < length (frames st) \<Longrightarrow> f_awaited (frames st ! i) = Some p \<Longrightarrow>
           f_newToken (frames st ! i) = Some r \<Longrightarrow>
           p < length (promises st) \<and> promises st ! p = Settled r"
  using assms unfolding consistent_def by fast+

lemma consistent_idle: "idle st \<Longrightarrow> consistent st"
  by (simp add: consistent_def idle_def in_flight_def began_refresh_def)

lemma began_refresh_new_call [simp]:
  "began_refresh (new_call path options st) i p = began_refresh st i p"
  by (auto simp: began_refresh_def nth_append)

lemma in_flight_new_call [simp]: "in_flight (new_call path options st) p = in_flight st p"
  by (simp add: in_flight_def)

lemma consistent_new_call:
  assumes "consistent st"
  shows "consistent (new_call path options st)"
proof (rule consistentI)
  fix i response began p
  assume "i < length (frames (new_call path options st))"
    and "f_stage (frames (new_call path options st) ! i) = AwaitRefresh response began p"
  then show "p < length (promises (new_call path options st)) \<and>
             f_awaited (frames (new_call path options st) ! i) = Some p"
    using consistentD(5) [OF assms, of i response began p]
    by (cases "i < length (frames st)") (auto simp: nth_append)
next
  fix i
  assume "i < length (frames (new_call path options st))"
    and "f_stage (frames (new_call path options st) ! i) = AwaitResponse"
  then show "f_awaited (frames (new_call path options st) ! i) = None \<and>
             f_newToken (frames (new_call path options st) ! i) = None"
    using consistentD(6) [OF assms, of i]
    by (cases "i < length (frames st)") (auto simp: nth_append)
next
  fix i p r
  assume "i < length (frames (new_call path options st))"
    and "f_awaited (frames (new_call path options st) ! i) = Some p"
    and "f_newToken (frames (new_call path options st) ! i) = Some r"
  then show "p < length (promises (new_call path options st)) \<and>
             promises (new_call path options st) ! p = Settled r"
    using consistentD(7) [OF assms, of i p r]
    by (cases "i < length (frames st)") (auto simp: nth_append)
qed (use consistentD(1-4) [OF assms] in simp_all)

lemma began_refresh_update:
  assumes "frames st' = (frames st)[k := f']" and "k < length (frames st)"
  shows "began_refresh st' i p =
           (if i = k then (\<exists>response. f_stage f' = AwaitRefresh response True p)
            else began_refresh st i p)"
  using assms by (simp add: began_refresh_def)

lemma not_began_refresh:
  "f_stage (frames st ! k) = AwaitResponse \<or> f_stage (frames st ! k) = AwaitRetry \<Longrightarrow>
   \<not> began_refresh st k q"
  by (auto simp: began_refresh_def)

text \<open>A call moves on to a stage that awaits no refresh.\<close>

lemma consistent_moved_on:
  assumes c: "consistent st" and k: "k < length (frames st)"
    and h: "handle st' = (if began_refresh st k q then None else handle st)"
    and p: "promises st' = promises st"
    and f: "frames st' = (frames st)[k := f']"
    and s: "f_stage f' = AwaitRetry \<or> (\<exists>r. f_stage f' = Returned r)"
    and a: "f_awaited f' = f_awaited (frames st ! k)"
    and n: "f_newToken f' = f_newToken (frames st ! k) \<or>
            (\<exists>r. f_newToken f' = Some r \<and> (\<exists>pr. f_awaited (frames st ! k) = Some pr \<and> promises st ! pr = Settled r \<and> pr < length (promises st)))"
    and q: "began_refresh st k q \<Longrightarrow> \<not> in_flight st q"
  shows "consistent st'"
proof (rule consistentI)
  fix pr assume "in_flight st' pr"
  then have fl: "in_flight st pr" using p by (simp add: in_flight_def)
  then have hp: "handle st = Some pr" by (rule consistentD(1) [OF c])
  show "handle st' = Some pr"
  proof (cases "began_refresh st k q")
    case True
    then have "handle st = Some q" by (rule consistentD(3) [OF c])
    with hp q [OF True] fl show ?thesis by simp
  next
    case False
    with h hp show ?thesis by simp
  qed
next
  fix pr assume "handle st' = Some pr"
  with h have "handle st = Some pr" by (simp split: if_splits)
  then show "pr < length (promises st')" using consistentD(2) [OF c] p by simp
next
  fix i pr assume b: "began_refresh st' i pr"
  with s have ik: "i \<noteq> k" and bi: "began_refresh st i pr"
    by (auto simp: began_refresh_update [OF f k] split: if_splits)
  have "\<not> began_refresh st k q"
    using consistentD(4) [OF c bi, of k q] ik by blast
  with h consistentD(3) [OF c bi] show "handle st' = Some pr" by simp
next
  fix i j pr qr assume "began_refresh st' i pr" and "began_refresh st' j qr"
  with s have "began_refresh st i pr" and "began_refresh st j qr"
    by (auto simp: began_refresh_update [OF f k] split: if_splits)
  then show "i = j" by (rule consistentD(4) [OF c])
next
  fix i response began pr
  assume "i < length (frames st')" and st: "f_stage (frames st' ! i) = AwaitRefresh response began pr"
  with f have i: "i < length (frames st)" by simp
  from st s f k i have "i \<noteq> k" by auto
  with st f have "f_stage (frames st ! i) = AwaitRefresh response began pr" by simp
  from consistentD(5) [OF c i this] \<open>i \<noteq> k\<close> f p
  show "pr < length (promises st') \<and> f_awaited (frames st' ! i) = Some pr" by simp
next
  fix i
  assume "i < length (frames st')" and st: "f_stage (frames st' ! i) = AwaitResponse"
  with f have i: "i < length (frames st)" by simp
  from st s f k i have "i \<noteq> k" by auto
  with st f have "f_stage (frames st ! i) = AwaitResponse" by simp
  from consistentD(6) [OF c i this] \<open>i \<noteq> k\<close> f
  show "f_awaited (frames st' ! i) = None \<and> f_newToken (frames st' ! i) = None" by simp
next
  fix i pr r
  assume "i < length (frames st')" and aw: "f_awaited (frames st' ! i) = Some pr"
    and nt: "f_newToken (frames st' ! i) = Some r"
  with f have i: "i < length (frames st)" by simp
  show "pr < length (promises st') \<and> promises st' ! pr = Settled r"
  proof (cases "i = k")
    case True
    with aw nt f k have aw': "f_awaited f' = Some pr" and nt': "f_newToken f' = Some r" by simp_all
    from n show ?thesis
    proof
      assume "f_newToken f' = f_newToken (frames st ! k)"
      with aw' nt' a consistentD(7) [OF c k, of pr r] p show ?thesis by simp
    next
      assume "\<exists>r. f_newToken f' = Some r \<and> (\<exists>pr. f_awaited (frames st ! k) = Some pr \<and> promises st ! pr = Settled r \<and> pr < length (promises st))"
      with aw' nt' a p show ?thesis by auto
    qed
  next
    case False
    with aw nt f have "f_awaited (frames st ! i) = Some pr" "f_newToken (frames st ! i) = Some r"
      by simp_all
    from consistentD(7) [OF c i this] p show ?thesis by simp
  qed
qed

text \<open>A call starts to await a refresh: the one in the handle, or the one it begins.\<close>

lemma consistent_awaits:
  assumes c: "consistent st" and k: "k < length (frames st)"
    and ar: "f_stage (frames st ! k) = AwaitResponse"
    and h: "handle st' = Some q"
    and began: "if began then handle st = None \<and> q = length (promises st) \<and>
                             (\<exists>x. promises st' = promises st @ [x])
                else handle st = Some q \<and> promises st' = promises st"
    and f: "frames st' = (frames st)[k := f']"
    and s: "f_stage f' = AwaitRefresh response began q"
    and a: "f_awaited f' = Some q"
    and n: "f_newToken f' = f_newToken (frames st ! k)"
  shows "consistent st'"
proof -
  have len: "length (promises st) \<le> length (promises st')"
    and old: "\<And>pr. pr < length (promises st) \<Longrightarrow> promises st' ! pr = promises st ! pr"
    using began by (auto simp: nth_append split: if_splits)
  have q: "q < length (promises st')"
    using began consistentD(2) [OF c, of q] by (auto split: if_splits)
  have none: "began \<Longrightarrow> \<not> began_refresh st i pr" for i pr
    using began consistentD(3) [OF c, of i pr] by auto
  have nt: "f_newToken f' = None"
    using n consistentD(6) [OF c k ar] by simp
  show ?thesis
  proof (rule consistentI)
    fix pr assume fl: "in_flight st' pr"
    show "handle st' = Some pr"
    proof (cases "pr < length (promises st)")
      case True
      with fl old have "in_flight st pr" by (simp add: in_flight_def)
      then have "handle st = Some pr" by (rule consistentD(1) [OF c])
      with began h show ?thesis by (auto split: if_splits)
    next
      case False
      with fl began h show ?thesis by (auto simp: in_flight_def split: if_splits)
    qed
  next
    fix pr assume "handle st' = Some pr"
    with h q show "pr < length (promises st')" by simp
  next
    fix i pr assume b: "began_refresh st' i pr"
    show "handle st' = Some pr"
    proof (cases "i = k")
      case True
      with b s h show ?thesis by (simp add: began_refresh_update [OF f k])
    next
      case False
      with b have bi: "began_refresh st i pr" by (simp add: began_refresh_update [OF f k])
      with none have "\<not> began" by blast
      with began h consistentD(3) [OF c bi] show ?thesis by simp
    qed
  next
    fix i j pr qr assume bi: "began_refresh st' i pr" and bj: "began_refresh st' j qr"
    show "i = j"
    proof (cases "began")
      case True
      with bi bj none show ?thesis
        by (simp add: began_refresh_update [OF f k] split: if_splits)
    next
      case False
      with bi bj s have "began_refresh st i pr" and "began_refresh st j qr"
        by (auto simp: began_refresh_update [OF f k] split: if_splits)
      then show ?thesis by (rule consistentD(4) [OF c])
    qed
  next
    fix i resp b pr
    assume "i < length (frames st')" and st: "f_stage (frames st' ! i) = AwaitRefresh resp b pr"
    with f have i: "i < length (frames st)" by simp
    show "pr < length (promises st') \<and> f_awaited (frames st' ! i) = Some pr"
    proof (cases "i = k")
      case True
      with st s f k a q show ?thesis by simp
    next
      case False
      with st f have "f_stage (frames st ! i) = AwaitRefresh resp b pr" by simp
      from consistentD(5) [OF c i this] False f len show ?thesis by simp
    qed
  next
    fix i
    assume "i < length (frames st')" and st: "f_stage (frames st' ! i) = AwaitResponse"
    with f have i: "i < length (frames st)" by simp
    from st s f k i have "i \<noteq> k" by auto
    with st f have "f_stage (frames st ! i) = AwaitResponse" by simp
    from consistentD(6) [OF c i this] \<open>i \<noteq> k\<close> f
    show "f_awaited (frames st' ! i) = None \<and> f_newToken (frames st' ! i) = None" by simp
  next
    fix i pr r
    assume "i < length (frames st')" and aw: "f_awaited (frames st' ! i) = Some pr"
      and nw: "f_newToken (frames st' ! i) = Some r"
    with f have i: "i < length (frames st)" by simp
    from nw nt f k have "i \<noteq> k" by auto
    with aw nw f have "f_awaited (frames st ! i) = Some pr" "f_newToken (frames st ! i) = Some r"
      by simp_all
    from consistentD(7) [OF c i this] old len show "pr < length (promises st') \<and> promises st' ! pr = Settled r"
      by simp
  qed
qed

text \<open>A refresh in flight settles.\<close>

lemma consistent_settled:
  assumes c: "consistent st" and fl: "in_flight st q"
    and h: "handle st' = handle st"
    and p: "promises st' = (promises st)[q := Settled r]"
    and f: "frames st' = frames st"
  shows "consistent st'"
proof (rule consistentI)
  fix pr assume "in_flight st' pr"
  with p have "in_flight st pr"
    by (cases "pr = q") (auto simp: in_flight_def)
  with h consistentD(1) [OF c] show "handle st' = Some pr" by simp
next
  fix pr assume "handle st' = Some pr"
  with h p consistentD(2) [OF c, of pr] show "pr < length (promises st')" by simp
next
  fix i pr assume "began_refresh st' i pr"
  with f have "began_refresh st i pr" by (simp add: began_refresh_def)
  with h consistentD(3) [OF c] show "handle st' = Some pr" by simp
next
  fix i j pr qr assume "began_refresh st' i pr" and "began_refresh st' j qr"
  with f have "began_refresh st i pr" and "began_refresh st j qr" by (simp_all add: began_refresh_def)
  then show "i = j" by (rule consistentD(4) [OF c])
next
  fix i response began pr
  assume "i < length (frames st')" and "f_stage (frames st' ! i) = AwaitRefresh response began pr"
  with f consistentD(5) [OF c, of i response began pr] p
  show "pr < length (promises st') \<and> f_awaited (frames st' ! i) = Some pr" by simp
next
  fix i
  assume "i < length (frames st')" and "f_stage (frames st' ! i) = AwaitResponse"
  with f consistentD(6) [OF c, of i]
  show "f_awaited (frames st' ! i) = None \<and> f_newToken (frames st' ! i) = None" by simp
next
  fix i pr x
  assume "i < length (frames st')" and "f_awaited (frames st' ! i) = Some pr"
    and "f_newToken (frames st' ! i) = Some x"
  with f consistentD(7) [OF c, of i pr x]
  have "pr < length (promises st)" and "promises st ! pr = Settled x" by simp_all
  with fl have "pr \<noteq> q" by (auto simp: in_flight_def)
  with \<open>pr < length (promises st)\<close> \<open>promises st ! pr = Settled x\<close> p
  show "pr < length (promises st') \<and> promises st' ! pr = Settled x" by simp
qed

text \<open>Every event keeps the state consistent.\<close>

lemma consistent_on_response:
  assumes c: "consistent st" and r: "on_response sf k out st = Some st'"
  shows "consistent st'"
proof -
  from r have k: "k < length (frames st)"
    by (simp add: on_response_def split: if_splits)
  let ?f = "frames st ! k"
  show ?thesis
  proof (cases "f_stage ?f")
    case AwaitResponse
    show ?thesis
    proof (cases out)
      case NetworkFail
      with r k AwaitResponse have st': "st' = set_frame k (?f\<lparr>f_stage := Returned (Inl NetworkError)\<rparr>) st"
        by (simp add: on_response_def)
      show ?thesis
        by (rule consistent_moved_on [OF c k, where q = 0 and f' = "?f\<lparr>f_stage := Returned (Inl NetworkError)\<rparr>"])
           (simp_all add: st' not_began_refresh AwaitResponse)
    next
      case (Response response)
      show ?thesis
      proof (cases "status response = 401 \<and> truthy (f_token ?f)")
        case False
        with r k AwaitResponse Response
        have st': "st' = set_frame k (?f\<lparr>f_stage := Returned (request_result response)\<rparr>) st"
          by (auto simp: on_response_def)
        show ?thesis
          by (rule consistent_moved_on [OF c k, where q = 0 and f' = "?f\<lparr>f_stage := Returned (request_result response)\<rparr>"])
             (simp_all add: st' not_began_refresh AwaitResponse)
      next
        case True
        show ?thesis
        proof (cases "handle st")
          case None
          with r k AwaitResponse Response True
          have st': "st' = set_frame k
                 (?f\<lparr>f_awaited := Some (length (promises st)),
                     f_stage := AwaitRefresh response True (length (promises st))\<rparr>)
                 (start_refresh sf st)"
            by (simp add: on_response_def)
          show ?thesis
            by (rule consistent_awaits [OF c k AwaitResponse, where began = True
                  and q = "length (promises st)" and response = response
                  and f' = "?f\<lparr>f_awaited := Some (length (promises st)),
                     f_stage := AwaitRefresh response True (length (promises st))\<rparr>"])
               (simp_all add: st' None)
        next
          case (Some p)
          with r k AwaitResponse Response True
          have st': "st' = set_frame k
                 (?f\<lparr>f_awaited := Some p, f_stage := AwaitRefresh response False p\<rparr>) st"
            by (simp add: on_response_def)
          show ?thesis
            by (rule consistent_awaits [OF c k AwaitResponse, where began = False
                  and q = p and response = response
                  and f' = "?f\<lparr>f_awaited := Some p, f_stage := AwaitRefresh response False p\<rparr>"])
               (simp_all add: st' Some)
        qed
      qed
    qed
  next
    case (AwaitRefresh response began p)
    with r k show ?thesis by (simp add: on_response_def)
  next
    case AwaitRetry
    from r k AwaitRetry obtain x where st': "st' = set_frame k (?f\<lparr>f_stage := Returned x\<rparr>) st"
      by (auto simp: on_response_def Let_def split: fetch_outcome.splits)
    show ?thesis
      by (rule consistent_moved_on [OF c k, where q = 0 and f' = "?f\<lparr>f_stage := Returned x\<rparr>"])
         (simp_all add: st' not_began_refresh AwaitRetry)
  next
    case (Returned x)
    with r k show ?thesis by (simp add: on_response_def)
  qed
qed

lemma consistent_on_refresh_response:
  assumes c: "consistent st" and r: "on_refresh_response p out st = Some st'"
  shows "consistent st'"
proof -
  from r have fl: "in_flight st p"
    by (simp add: on_refresh_response_def in_flight_def split: if_splits)
  obtain x st1 where cn: "catch_null (doRefresh_response out st) = (x, st1)"
    by (cases "catch_null (doRefresh_response out st)")
  with r fl have st': "st' = st1\<lparr>promises := (promises st1)[p := Settled x]\<rparr>"
    by (simp add: on_refresh_response_def in_flight_def)
  from cn have st1: "st1 = snd (catch_null (doRefresh_response out st))" by simp
  show ?thesis
    by (rule consistent_settled [OF c fl, where r = x]) (simp_all add: st' st1)
qed

lemma consistent_resume:
  assumes c: "consistent st" and r: "resume k st = Some st'"
  shows "consistent st'"
proof -
  from r have k: "k < length (frames st)"
    by (simp add: resume_def split: if_splits)
  let ?f = "frames st ! k"
  from r k obtain response began p x where
    stage: "f_stage ?f = AwaitRefresh response began p" and p: "p < length (promises st)"
    and settled: "promises st ! p = Settled x"
    by (auto simp: resume_def Let_def split: stage.splits if_splits promise.splits)
  let ?st1 = "if began then st\<lparr>handle := None\<rparr> else st"
  from r k stage p settled obtain stg st2 where
    st': "st' = set_frame k (?f\<lparr>f_newToken := Some x, f_stage := stg\<rparr>) st2"
    and stg: "stg = AwaitRetry \<or> (\<exists>y. stg = Returned y)"
    and st2: "handle st2 = handle ?st1" "promises st2 = promises st" "frames st2 = frames st"
    by (auto simp: resume_def Let_def split: sum.splits if_splits)
  have aw: "f_awaited ?f = Some p"
    using consistentD(5) [OF c k stage] by simp
  have b: "began_refresh st k p = began"
    using k stage by (auto simp: began_refresh_def)
  show ?thesis
    by (rule consistent_moved_on [OF c k, where q = p
          and f' = "?f\<lparr>f_newToken := Some x, f_stage := stg\<rparr>"])
       (use st' stg st2 aw b p settled in \<open>auto simp: in_flight_def\<close>)
qed

lemma consistent_step:
  "consistent st \<Longrightarrow> step sf e st = Some st' \<Longrightarrow> consistent st'"
  by (cases e)
     (auto intro: consistent_new_call consistent_on_response consistent_on_refresh_response
        consistent_resume)

lemma reachable_consistent: "reachable sf st \<Longrightarrow> consistent st"
  by (induction rule: reachable.induct) (auto intro: consistent_idle consistent_step)

text \<open>
  The calls \<open>ks\<close> get a 401 one after the other. Under an occupied handle each of them
  awaits the promise in the handle and nothing else changes; from an empty handle the first
  begins the refresh and the others await its promise.
\<close>

lemma join_step:
  assumes "handle st = Some p" and "awaiting_response st i" and "status response = 401"
  shows "step sf (Respond i (Response response)) st =
           Some (set_frame i ((frames st ! i)\<lparr>f_awaited := Some p,
                                f_stage := AwaitRefresh response False p\<rparr>) st)"
  using assms by (simp add: on_response_def awaiting_response_def)

lemma begin_step:
  assumes "handle st = None" and "awaiting_response st i" and "status response = 401"
  shows "step sf (Respond i (Response response)) st =
           Some (set_frame i ((frames st ! i)\<lparr>f_awaited := Some (length (promises st)),
                                f_stage := AwaitRefresh response True (length (promises st))\<rparr>)
                   (start_refresh sf st))"
  using assms by (simp add: on_response_def awaiting_response_def)

lemma joins:
  assumes "handle st = Some p" and "distinct ks" and "length rs = length ks"
    and "\<forall>i\<in>set ks. awaiting_response st i" and "\<forall>r\<in>set rs. status r = 401"
  shows "\<exists>st'. run sf (deliver ks rs) st = Some st' \<and> calls st' = calls st \<and>
           promises st' = promises st \<and> handle st' = Some p \<and>
           localStorage st' = localStorage st \<and>
           length (frames st') = length (frames st) \<and>
           (\<forall>i\<in>set ks. f_awaited (frames st' ! i) = Some p) \<and>
           (\<forall>i. i \<notin> set ks \<longrightarrow> frames st' ! i = frames st ! i)"
  using assms
proof (induction ks arbitrary: rs st)
  case Nil
  then show ?case by (simp add: deliver_def)
next
  case (Cons k ks)
  from Cons.prems(3) obtain r rs' where rs: "rs = r # rs'" and len: "length rs' = length ks"
    by (cases rs) auto
  let ?st1 = "set_frame k ((frames st ! k)\<lparr>f_awaited := Some p,
                                f_stage := AwaitRefresh r False p\<rparr>) st"
  have k: "awaiting_response st k" and r: "status r = 401"
    using Cons.prems rs by auto
  have s1: "step sf (Respond k (Response r)) st = Some ?st1"
    by (rule join_step [OF Cons.prems(1) k r])
  have kl: "k < length (frames st)" using k by (simp add: awaiting_response_def)
  have others: "\<forall>i\<in>set ks. awaiting_response ?st1 i"
  proof
    fix i assume i: "i \<in> set ks"
    with Cons.prems(2) have "i \<noteq> k" by auto
    moreover from i Cons.prems(4) have "awaiting_response st i" by simp
    ultimately show "awaiting_response ?st1 i" by (simp add: awaiting_response_def)
  qed
  from Cons.IH [of ?st1 rs'] Cons.prems rs len others
  obtain st' where run: "run sf (deliver ks rs') ?st1 = Some st'"
    and eqs: "calls st' = calls st" "promises st' = promises st" "handle st' = Some p"
      "localStorage st' = localStorage st" "length (frames st') = length (frames st)"
    and aw: "\<forall>i\<in>set ks. f_awaited (frames st' ! i) = Some p"
    and same: "\<forall>i. i \<notin> set ks \<longrightarrow> frames st' ! i = frames ?st1 ! i"
    by auto
  have "run sf (deliver (k # ks) rs) st = Some st'"
    using s1 run rs by (simp add: deliver_def)
  moreover have "f_awaited (frames st' ! k) = Some p"
    using same Cons.prems(2) kl by simp
  moreover have "\<forall>i. i \<notin> set (k # ks) \<longrightarrow> frames st' ! i = frames st ! i"
    using same by simp
  ultimately show ?case using eqs aw by auto
qed

lemma window:
  assumes "handle st = None" and "ks \<noteq> []" and "distinct ks" and "length rs = length ks"
    and "\<forall>i\<in>set ks. awaiting_response st i" and "\<forall>r\<in>set rs. status r = 401"
  shows "\<exists>st'. run sf (deliver ks rs) st = Some st' \<and>
           calls st' = calls st @ (if truthy (getRefreshToken st)
                                   then [refresh_request sf st (getRefreshToken st)] else []) \<and>
           promises st' = promises st @
             [if truthy (getRefreshToken st) then Pending else Settled (Inr JNull)] \<and>
           handle st' = Some (length (promises st)) \<and>
           (\<forall>i\<in>set ks. f_awaited (frames st' ! i) = Some (length (promises st)))"
proof -
  from assms(2,4) obtain k ks' r rs' where ks: "ks = k # ks'" and rs: "rs = r # rs'"
    and len: "length rs' = length ks'"
    by (cases ks; cases rs) auto
  let ?p = "length (promises st)"
  let ?st1 = "set_frame k ((frames st ! k)\<lparr>f_awaited := Some ?p,
                                f_stage := AwaitRefresh r True ?p\<rparr>) (start_refresh sf st)"
  have k: "awaiting_response st k" and r: "status r = 401"
    using assms ks rs by auto
  have kl: "k < length (frames st)" using k by (simp add: awaiting_response_def)
  have s1: "step sf (Respond k (Response r)) st = Some ?st1"
    by (rule begin_step [OF assms(1) k r])
  have others: "\<forall>i\<in>set ks'. awaiting_response ?st1 i"
  proof
    fix i assume i: "i \<in> set ks'"
    with assms(3) ks have "i \<noteq> k" by auto
    moreover from i assms(5) ks have "awaiting_response st i" by simp
    ultimately show "awaiting_response ?st1 i" by (simp add: awaiting_response_def)
  qed
  from joins [of ?st1 ?p ks' rs' sf] assms ks rs len others
  obtain st' where run: "run sf (deliver ks' rs') ?st1 = Some st'"
    and eqs: "calls st' = calls ?st1" "promises st' = promises ?st1" "handle st' = Some ?p"
    and aw: "\<forall>i\<in>set ks'. f_awaited (frames st' ! i) = Some ?p"
    and same: "\<forall>i. i \<notin> set ks' \<longrightarrow> frames st' ! i = frames ?st1 ! i"
    by auto
  have "run sf (deliver ks rs) st = Some st'"
    using s1 run ks rs by (simp add: deliver_def)
  moreover have "f_awaited (frames st' ! k) = Some ?p"
    using same assms(3) ks kl by simp
  ultimately show ?thesis using eqs aw ks by auto
qed

lemma awaited_stable:
  assumes c: "consistent st" and s: "step sf e st = Some st'"
    and i: "i < length (frames st)" and a: "f_awaited (frames st ! i) = Some p"
  shows "f_awaited (frames st' ! i) = Some p"
proof (cases e)
  case (Call path options)
  with s i a show ?thesis by (auto simp: nth_append)
next
  case (Respond k out)
  show ?thesis
  proof (cases "k = i")
    case False
    with s Respond i a show ?thesis
      by (auto simp: on_response_def Let_def
          split: if_splits stage.splits fetch_outcome.splits option.splits)
  next
    case True
    from consistentD(6) [OF c i] a have "f_stage (frames st ! i) \<noteq> AwaitResponse" by auto
    with s Respond True i a show ?thesis
      by (auto simp: on_response_def Let_def split: if_splits stage.splits fetch_outcome.splits)
  qed
next
  case (RefreshRespond q out)
  with s i a on_refresh_response_frames(1) [of q out st st'] show ?thesis
    by simp
next
  case (Resume k)
  with s i a show ?thesis
    by (cases "k = i")
       (auto simp: resume_def Let_def split: if_splits stage.splits promise.splits sum.splits)
qed

lemma resume_observes:
  assumes c: "consistent st" and i: "i < length (frames st)"
    and a: "f_awaited (frames st ! i) = Some p" and r: "resume i st = Some st'"
  shows "\<exists>x. promises st ! p = Settled x \<and> f_newToken (frames st' ! i) = Some x"
proof -
  from r i obtain response began q x where
    stage: "f_stage (frames st ! i) = AwaitRefresh response began q"
    and settled: "promises st ! q = Settled x"
    by (auto simp: resume_def Let_def split: stage.splits if_splits promise.splits)
  from consistentD(5) [OF c i stage] a have "q = p" by simp
  moreover from r i stage settled have "f_newToken (frames st' ! i) = Some x"
    by (auto simp: resume_def Let_def split: if_splits sum.splits)
  ultimately show ?thesis using settled by auto
qed

lemma reachable_run:
  "reachable sf st \<Longrightarrow> run sf es st = Some st' \<Longrightarrow> reachable sf st'"
proof (induction es arbitrary: st)
  case Nil
  then show ?case by simp
next
  case (Cons e es)
  then show ?case
    by (cases "step sf e st") (auto intro: reachable.step)
qed

lemma reachable_two_calls: "reachable sf (two_calls store)"
proof -
  have "reachable sf (loaded store)"
    by (rule reachable.idle) (simp add: idle_def loaded_def)
  then have "reachable sf (new_call ''/v1/admin/users'' no_options (loaded store))"
    by (rule reachable.step [where e = "Call ''/v1/admin/users'' no_options"]) simp
  then show ?thesis
    unfolding two_calls_def
    by (rule reachable.step [where e = "Call ''/v1/admin/projects'' no_options"]) simp
qed

text \<open>
  C1, as stated: whenever K concurrent calls get a 401 while no refresh is in flight, exactly
  one call to the refresh endpoint is made. Line 53 returns before the \<^verbatim>\<open>fetch\<close> when no
  refresh token is stored: two calls in flight, each with a token attached, each getting its
  401 while no refresh is in flight, make no call but their own.
\<close>

theorem no_refresh_token_counterexample:
  "map_option urls_called
     (run stub_stringify
        [Call ''/v1/admin/users'' no_options, Call ''/v1/admin/projects'' no_options,
         Respond 0 (Response unauthorized), Resume 0,
         Respond 1 (Response unauthorized), Resume 1]
        (loaded access_token_only)) =
   Some [''http://localhost:8000/v1/admin/users'', ''http://localhost:8000/v1/admin/projects'']"
  by (simp add: urls_called_def new_call_def on_response_def resume_def start_refresh_def
      set_frame_def send_def auth_headers_def api_request_def API_BASE_def getToken_def
      getRefreshToken_def getItem_def request_result_def js_or_def ok_def loaded_def
      access_token_only_def unauthorized_def no_options_def Let_def)

text \<open>
  C1, amended. In every reachable state of the client:
  at most one refresh is in flight, and it is the one in the handle;
  a call that gets a 401 (token attached) under an occupied handle awaits the promise in the
  handle, and that turn makes no call and creates no promise;
  when \<open>K \<ge> 1\<close> calls awaiting their first response, each with a token attached, get a 401
  one after the other from an empty handle, those turns make at most one call, the refresh
  with the stored refresh token (exactly one when a refresh token is stored, none when there
  is none), create one promise, and all \<open>K\<close> calls await that promise;
  a call resumes only from a settled promise and with the value it settled with, so calls
  that awaited the same promise hold the same value (the same token, or the same failure);
  and the promise a call awaits never changes afterwards (every state that events lead to from
  a reachable one is reachable). The instance checked after the theorem is two calls that
  get their 401 one after the other, the refresh answering with a new token, and both calls
  resuming with that token.
\<close>

theorem single_flight:
  assumes "reachable sf st"
  shows "(\<forall>p. in_flight st p \<longrightarrow> handle st = Some p) \<and>
         (\<forall>p q. in_flight st p \<longrightarrow> in_flight st q \<longrightarrow> p = q) \<and>
         (\<forall>p i response. handle st = Some p \<longrightarrow> awaiting_response st i \<longrightarrow> status response = 401 \<longrightarrow>
            (\<exists>st'. step sf (Respond i (Response response)) st = Some st' \<and>
                   calls st' = calls st \<and> promises st' = promises st \<and>
                   f_awaited (frames st' ! i) = Some p)) \<and>
         (\<forall>ks rs. handle st = None \<longrightarrow> ks \<noteq> [] \<longrightarrow> distinct ks \<longrightarrow> length rs = length ks \<longrightarrow>
            (\<forall>i\<in>set ks. awaiting_response st i) \<longrightarrow> (\<forall>r\<in>set rs. status r = 401) \<longrightarrow>
            (\<exists>st'. run sf (deliver ks rs) st = Some st' \<and>
                   calls st' = calls st @ (if truthy (getRefreshToken st)
                                           then [refresh_request sf st (getRefreshToken st)] else []) \<and>
                   promises st' = promises st @
                     [if truthy (getRefreshToken st) then Pending else Settled (Inr JNull)] \<and>
                   handle st' = Some (length (promises st)) \<and>
                   (\<forall>i\<in>set ks. f_awaited (frames st' ! i) = Some (length (promises st))))) \<and>
         (\<forall>i p st'. i < length (frames st) \<longrightarrow> f_awaited (frames st ! i) = Some p \<longrightarrow>
            resume i st = Some st' \<longrightarrow>
            (\<exists>x. promises st ! p = Settled x \<and> f_newToken (frames st' ! i) = Some x)) \<and>
         (\<forall>i j p x y. i < length (frames st) \<longrightarrow> j < length (frames st) \<longrightarrow>
            f_awaited (frames st ! i) = Some p \<longrightarrow> f_awaited (frames st ! j) = Some p \<longrightarrow>
            f_newToken (frames st ! i) = Some x \<longrightarrow> f_newToken (frames st ! j) = Some y \<longrightarrow> x = y) \<and>
         (\<forall>e st' i p. step sf e st = Some st' \<longrightarrow> i < length (frames st) \<longrightarrow>
            f_awaited (frames st ! i) = Some p \<longrightarrow> f_awaited (frames st' ! i) = Some p) \<and>
         (\<forall>es st'. run sf es st = Some st' \<longrightarrow> reachable sf st')"
proof -
  note c = reachable_consistent [OF assms]
  have one: "\<forall>p. in_flight st p \<longrightarrow> handle st = Some p"
    using consistentD(1) [OF c] by blast
  then have two: "\<forall>p q. in_flight st p \<longrightarrow> in_flight st q \<longrightarrow> p = q"
    by (metis option.inject)
  have three: "\<forall>p i response. handle st = Some p \<longrightarrow> awaiting_response st i \<longrightarrow> status response = 401 \<longrightarrow>
            (\<exists>st'. step sf (Respond i (Response response)) st = Some st' \<and>
                   calls st' = calls st \<and> promises st' = promises st \<and>
                   f_awaited (frames st' ! i) = Some p)"
  proof (intro allI impI)
    fix p i and response :: response
    assume h: "handle st = Some p" and a: "awaiting_response st i" and r: "status response = 401"
    from a have "i < length (frames st)" by (simp add: awaiting_response_def)
    then show "\<exists>st'. step sf (Respond i (Response response)) st = Some st' \<and>
                   calls st' = calls st \<and> promises st' = promises st \<and>
                   f_awaited (frames st' ! i) = Some p"
      using join_step [OF h a r, of sf] by simp
  qed
  have four: "\<forall>ks rs. handle st = None \<longrightarrow> ks \<noteq> [] \<longrightarrow> distinct ks \<longrightarrow> length rs = length ks \<longrightarrow>
            (\<forall>i\<in>set ks. awaiting_response st i) \<longrightarrow> (\<forall>r\<in>set rs. status r = 401) \<longrightarrow>
            (\<exists>st'. run sf (deliver ks rs) st = Some st' \<and>
                   calls st' = calls st @ (if truthy (getRefreshToken st)
                                           then [refresh_request sf st (getRefreshToken st)] else []) \<and>
                   promises st' = promises st @
                     [if truthy (getRefreshToken st) then Pending else Settled (Inr JNull)] \<and>
                   handle st' = Some (length (promises st)) \<and>
                   (\<forall>i\<in>set ks. f_awaited (frames st' ! i) = Some (length (promises st))))"
    by (intro allI impI) (rule window)
  have five: "\<forall>i p st'. i < length (frames st) \<longrightarrow> f_awaited (frames st ! i) = Some p \<longrightarrow>
            resume i st = Some st' \<longrightarrow>
            (\<exists>x. promises st ! p = Settled x \<and> f_newToken (frames st' ! i) = Some x)"
    by (intro allI impI) (rule resume_observes [OF c])
  have six: "\<forall>i j p x y. i < length (frames st) \<longrightarrow> j < length (frames st) \<longrightarrow>
            f_awaited (frames st ! i) = Some p \<longrightarrow> f_awaited (frames st ! j) = Some p \<longrightarrow>
            f_newToken (frames st ! i) = Some x \<longrightarrow> f_newToken (frames st ! j) = Some y \<longrightarrow> x = y"
  proof (intro allI impI)
    fix i j p x y
    assume "i < length (frames st)" "j < length (frames st)"
      "f_awaited (frames st ! i) = Some p" "f_awaited (frames st ! j) = Some p"
      "f_newToken (frames st ! i) = Some x" "f_newToken (frames st ! j) = Some y"
    then have "promises st ! p = Settled x" "promises st ! p = Settled y"
      using consistentD(7) [OF c] by blast+
    then show "x = y" by simp
  qed
  have seven: "\<forall>e st' i p. step sf e st = Some st' \<longrightarrow> i < length (frames st) \<longrightarrow>
            f_awaited (frames st ! i) = Some p \<longrightarrow> f_awaited (frames st' ! i) = Some p"
    by (intro allI impI) (rule awaited_stable [OF c])
  have eight: "\<forall>es st'. run sf es st = Some st' \<longrightarrow> reachable sf st'"
    by (intro allI impI) (rule reachable_run [OF assms])
  from one two three four five six seven eight show ?thesis by (intro conjI)
qed

theorem single_flight_witness:
  "(\<exists>st'. run stub_stringify (deliver [0, 1] [unauthorized, unauthorized])
            (two_calls stored_tokens) = Some st' \<and>
          calls st' = calls (two_calls stored_tokens) @
            [refresh_request stub_stringify (two_calls stored_tokens) (JStr ''refresh-1'')] \<and>
          promises st' = [Pending] \<and> handle st' = Some 0 \<and>
          f_awaited (frames st' ! 0) = Some 0 \<and> f_awaited (frames st' ! 1) = Some 0) \<and>
   map_option (map f_newToken \<circ> frames)
     (run stub_stringify
        (deliver [0, 1] [unauthorized, unauthorized] @
         [RefreshRespond 0 refreshed, Resume 0, Resume 1])
        (two_calls stored_tokens)) =
     Some [Some (Inr (JStr ''new-token'')), Some (Inr (JStr ''new-token''))]"
proof -
  let ?st = "two_calls stored_tokens"
  have h: "handle ?st = None" and p: "promises ?st = []"
    and t: "getRefreshToken ?st = JStr ''refresh-1''"
    and a: "\<forall>i\<in>set [0, 1]. awaiting_response ?st i"
    by (simp_all add: two_calls_def loaded_def stored_tokens_def awaiting_response_def
        getRefreshToken_def getToken_def getItem_def new_call_def send_def Let_def)
  have u: "\<forall>r\<in>set [unauthorized, unauthorized]. status r = 401"
    by (simp add: unauthorized_def)
  from single_flight [OF reachable_two_calls [where sf = stub_stringify and store = stored_tokens]]
  have "\<forall>ks rs. handle ?st = None \<longrightarrow> ks \<noteq> [] \<longrightarrow> distinct ks \<longrightarrow> length rs = length ks \<longrightarrow>
            (\<forall>i\<in>set ks. awaiting_response ?st i) \<longrightarrow> (\<forall>r\<in>set rs. status r = 401) \<longrightarrow>
            (\<exists>st'. run stub_stringify (deliver ks rs) ?st = Some st' \<and>
                   calls st' = calls ?st @ (if truthy (getRefreshToken ?st)
                                           then [refresh_request stub_stringify ?st (getRefreshToken ?st)] else []) \<and>
                   promises st' = promises ?st @
                     [if truthy (getRefreshToken ?st) then Pending else Settled (Inr JNull)] \<and>
                   handle st' = Some (length (promises ?st)) \<and>
                   (\<forall>i\<in>set ks. f_awaited (frames st' ! i) = Some (length (promises ?st))))"
    by blast
  from this [THEN spec, of "[0, 1]", THEN spec, of "[unauthorized, unauthorized]"] h a u
  have "\<exists>st'. run stub_stringify (deliver [0, 1] [unauthorized, unauthorized]) ?st = Some st' \<and>
          calls st' = calls ?st @ [refresh_request stub_stringify ?st (JStr ''refresh-1'')] \<and>
          promises st' = [Pending] \<and> handle st' = Some 0 \<and>
          f_awaited (frames st' ! 0) = Some 0 \<and> f_awaited (frames st' ! 1) = Some 0"
    by (simp add: t p)
  moreover have "map_option (map f_newToken \<circ> frames)
     (run stub_stringify
        (deliver [0, 1] [unauthorized, unauthorized] @
         [RefreshRespond 0 refreshed, Resume 0, Resume 1]) ?st) =
     Some [Some (Inr (JStr ''new-token'')), Some (Inr (JStr ''new-token''))]"
    by (simp add: deliver_def two_calls_def new_call_def on_response_def on_refresh_response_def
        resume_def start_refresh_def set_frame_def send_def doRefresh_response_def catch_null_def
        with_bearer_def setItem_def getToken_def getRefreshToken_def getItem_def loaded_def stored_tokens_def
        unauthorized_def refreshed_def reply_def ok_def no_options_def Let_def)
  ultimately show ?thesis by simp
qed

section \<open>One call alone\<close>

text \<open>
  The two models agree: a call that runs alone in the event model, from the module as loaded,
  returns what \<^verbatim>\<open>request\<close> returns, and leaves the same store and the same calls behind.
  Four events after the call are enough: the response, the refresh response, the resumption
  and the response to the retry.
\<close>

lemma as_session_simps [simp]:
  "getToken (as_session st) = getToken st"
  "getRefreshToken (as_session st) = getRefreshToken st"
  "API_BASE (as_session st) = API_BASE st"
  "first_headers (as_session st) options = first_headers st options"
  "api_request (as_session st) path options hs = api_request st path options hs"
  "refresh_request sf (as_session st) rt = refresh_request sf st rt"
  "calls (as_session st) = calls st"
  "localStorage (as_session st) = localStorage st"
  "refreshPromise (as_session st) = None"
  by (simp_all add: as_session_def getToken_def getRefreshToken_def getItem_def API_BASE_def
      first_headers_def auth_headers_def api_request_def refresh_request_def
      del: auth_headers_first)

lemma doRefresh_response_fst:
  "fst (doRefresh_response out st) = fst (doRefresh_response out st')"
  by (simp add: doRefresh_response_def setItem_def Let_def
      split: fetch_outcome.splits option.splits sum.splits)

lemma doRefresh_response_store_cong:
  assumes "localStorage st = localStorage st'"
  shows "localStorage (snd (doRefresh_response out st)) = localStorage (snd (doRefresh_response out st'))"
  unfolding doRefresh_response_store assms by (rule refl)

lemma request_unfold:
  "request pf path options s =
     (let req = api_request s path options (first_headers s options);
          s1 = send req s
      in case network pf (calls s) req of
           NetworkFail \<Rightarrow> (Inl NetworkError, s1)
         | Response r \<Rightarrow>
             if status r = 401 \<and> truthy (getToken s) then
               (case refreshAccessToken pf s1 of
                  (Inl e, s2) \<Rightarrow> (Inl e, s2)
                | (Inr v, s2) \<Rightarrow>
                    if truthy v then
                      (case with_bearer v (first_headers s options) of
                         Inl e \<Rightarrow> (Inl e, s2)
                       | Inr hs2 \<Rightarrow>
                           (let req2 = api_request s2 path options hs2
                            in case network pf (calls s2) req2 of
                                 NetworkFail \<Rightarrow> (Inl NetworkError, send req2 s2)
                               | Response r2 \<Rightarrow> (request_result r2, send req2 s2)))
                    else (request_result r, s2))
             else (request_result r, s1))"
  by (simp add: request_def request_response_def fetch_def Let_def
      split: fetch_outcome.splits prod.splits sum.splits)

lemma client_world [simp]:
  "has_window (new_call path options st) = has_window st"
  "api_url (new_call path options st) = api_url st"
  "localStorage (new_call path options st) = localStorage st"
  "calls (new_call path options st) =
     calls st @ [api_request st path options (first_headers st options)]"
  "has_window (set_frame i f st) = has_window st"
  "api_url (set_frame i f st) = api_url st"
  "has_window (start_refresh sf st) = has_window st"
  "api_url (start_refresh sf st) = api_url st"
  by (simp_all add: new_call_def set_frame_def start_refresh_def Let_def)

lemma client_tokens [simp]:
  "getRefreshToken (new_call path options st) = getRefreshToken st"
  "getRefreshToken (set_frame i f st) = getRefreshToken st"
  "refresh_request sf (new_call path options st) rt = refresh_request sf st rt"
  "refresh_request sf (set_frame i f st) rt = refresh_request sf st rt"
  "api_request (new_call path options st) p' o' hs = api_request st p' o' hs"
  "api_request (set_frame i f st) p' o' hs = api_request st p' o' hs"
  "api_request (start_refresh sf st) p' o' hs = api_request st p' o' hs"
  "api_request (st\<lparr>handle := h\<rparr>) p' o' hs = api_request st p' o' hs"
  by (simp_all add: getRefreshToken_def getItem_def API_BASE_def api_request_def
      refresh_request_def)

lemma api_request_refreshed [simp]:
  "api_request (snd (doRefresh_response out st)) p' o' hs = api_request st p' o' hs"
  "api_request (st\<lparr>promises := ps\<rparr>) p' o' hs = api_request st p' o' hs"
  "api_request (st\<lparr>promises := ps, handle := h\<rparr>) p' o' hs = api_request st p' o' hs"
  by (simp_all add: api_request_def API_BASE_def)

lemma alone_done: "next_event pf st = None \<Longrightarrow> alone pf n st = st"
  by (cases n) simp_all

lemma refreshAccessToken_alone:
  assumes "refreshPromise s = None"
  shows "fst (refreshAccessToken pf s) =
           (if truthy (getRefreshToken s)
            then fst (catch_null (doRefresh_response
                   (network pf (calls s) (refresh_request (JSON_stringify pf) s (getRefreshToken s)))
                   (send (refresh_request (JSON_stringify pf) s (getRefreshToken s)) s)))
            else Inr JNull)"
    and "localStorage (snd (refreshAccessToken pf s)) =
           (if truthy (getRefreshToken s)
            then localStorage (snd (doRefresh_response
                   (network pf (calls s) (refresh_request (JSON_stringify pf) s (getRefreshToken s)))
                   (send (refresh_request (JSON_stringify pf) s (getRefreshToken s)) s)))
            else localStorage s)"
  using assms
  by (simp_all add: refreshAccessToken_fresh doRefreshAccessToken_def fetch_def Let_def)

lemma catch_null_fst: "fst (catch_null r) = (case fst r of Inl e \<Rightarrow> Inr JNull | Inr v \<Rightarrow> Inr v)"
  by (simp add: catch_null_def split: prod.splits sum.splits)

lemma alone_agrees:
  assumes idle: "idle st"
  shows "f_stage (frames (alone pf 4 (new_call path options st)) ! 0) =
           Returned (fst (request pf path options (as_session st))) \<and>
         localStorage (alone pf 4 (new_call path options st)) =
           localStorage (snd (request pf path options (as_session st))) \<and>
         calls (alone pf 4 (new_call path options st)) =
           calls (snd (request pf path options (as_session st)))"
proof -
  let ?sf = "JSON_stringify pf"
  let ?s = "as_session st"
  let ?req = "api_request st path options (first_headers st options)"
  let ?f = "\<lparr>f_path = path, f_options = options, f_token = getToken st,
             f_headers = first_headers st options, f_awaited = None, f_newToken = None,
             f_stage = AwaitResponse\<rparr>"
  let ?c1 = "new_call path options st"
  from idle have c1: "frames st = []" "handle st = None" "promises st = []"
    by (simp_all add: idle_def)
  have c1': "calls ?c1 = calls st @ [?req]" "localStorage ?c1 = localStorage st"
    by (simp_all add: new_call_def Let_def)
  have a1: "answer pf ?c1 = network pf (calls st) ?req"
    by (simp add: answer_def c1')
  have e1: "next_event pf ?c1 = Some (Respond 0 (network pf (calls st) ?req))"
    by (simp add: next_event_def c1 a1)
  show ?thesis
  proof (cases "network pf (calls st) ?req")
    case NetworkFail
    let ?c2 = "set_frame 0 (?f\<lparr>f_stage := Returned (Inl NetworkError)\<rparr>) ?c1"
    have "step ?sf (Respond 0 NetworkFail) ?c1 = Some ?c2"
      by (simp add: on_response_def c1)
    moreover have "next_event pf ?c2 = None"
      by (simp add: next_event_def c1)
    ultimately have "alone pf 4 ?c1 = ?c2"
      using e1 NetworkFail by (simp add: numeral_eq_Suc alone_done)
    then show ?thesis
      using NetworkFail by (simp add: request_unfold c1 c1')
  next
    case (Response r)
    have four: "(4::nat) = Suc (Suc (Suc (Suc 0)))" by simp
    note evs = four next_event_def answer_def on_response_def resume_def
      on_refresh_response_def in_flight_def Let_def
    show ?thesis
    proof (cases "status r = 401 \<and> truthy (getToken st)")
      case False
      have "f_stage (frames (alone pf 4 ?c1) ! 0) = Returned (request_result r) \<and>
            localStorage (alone pf 4 ?c1) = localStorage st \<and>
            calls (alone pf 4 ?c1) = calls st @ [?req]"
        using Response False c1 by (auto simp: evs c1')
      then show ?thesis
        using Response False by (auto simp: request_unfold Let_def)
    next
      case True
      show ?thesis
      proof (cases "truthy (getRefreshToken st)")
        case False
        have "f_stage (frames (alone pf 4 ?c1) ! 0) = Returned (request_result r) \<and>
              localStorage (alone pf 4 ?c1) = localStorage st \<and>
              calls (alone pf 4 ?c1) = calls st @ [?req]"
          using Response True False c1 by (simp add: evs c1')
        moreover have "fst (refreshAccessToken pf (send ?req ?s)) = Inr JNull"
          "localStorage (snd (refreshAccessToken pf (send ?req ?s))) = localStorage st"
          "calls (snd (refreshAccessToken pf (send ?req ?s))) = calls st @ [?req]"
          using False by (simp_all add: refreshAccessToken_alone refreshAccessToken_calls)
        ultimately show ?thesis
          using Response True
          by (cases "refreshAccessToken pf (send ?req ?s)") (simp add: request_unfold Let_def)
      next
        case rt: True
        let ?rreq = "refresh_request ?sf st (getRefreshToken st)"
        let ?o2 = "network pf (calls st @ [?req]) ?rreq"
        let ?c2 = "set_frame 0 (?f\<lparr>f_awaited := Some 0, f_stage := AwaitRefresh r True 0\<rparr>)
                     (start_refresh ?sf ?c1)"
        let ?s2 = "send ?rreq (send ?req ?s)"
        let ?ref = "refreshAccessToken pf (send ?req ?s)"
        obtain v where v: "fst (catch_null (doRefresh_response ?o2 ?c2)) = Inr v"
          by (cases "fst (doRefresh_response ?o2 ?c2)") (simp_all add: catch_null_fst)
        have ref: "fst ?ref = Inr v"
          "localStorage (snd ?ref) = localStorage (snd (doRefresh_response ?o2 ?c2))"
          "calls (snd ?ref) = calls st @ [?req, ?rreq]"
          using v rt doRefresh_response_fst [of ?o2 ?s2 ?c2]
            doRefresh_response_store_cong [of ?s2 ?c2 ?o2]
          by (simp_all add: refreshAccessToken_alone refreshAccessToken_calls catch_null_fst)
        let ?req2 = "\<lambda>hs2. api_request st path options hs2"
        have ev: "f_stage (frames (alone pf 4 ?c1) ! 0) =
              Returned (if truthy v
                        then (case with_bearer v (first_headers st options) of
                                Inl e \<Rightarrow> Inl e
                              | Inr hs2 \<Rightarrow>
                                  (case network pf (calls st @ [?req, ?rreq]) (?req2 hs2) of
                                     NetworkFail \<Rightarrow> Inl NetworkError
                                   | Response r2 \<Rightarrow> request_result r2))
                        else request_result r) \<and>
              localStorage (alone pf 4 ?c1) = localStorage (snd (doRefresh_response ?o2 ?c2)) \<and>
              calls (alone pf 4 ?c1) =
                calls st @ [?req, ?rreq] @
                  (if truthy v
                   then (case with_bearer v (first_headers st options) of
                           Inl e \<Rightarrow> [] | Inr hs2 \<Rightarrow> [?req2 hs2])
                   else [])"
          using Response True rt c1 v
          by (simp add: evs c1' case_prod_beta butlast_append
              split: fetch_outcome.splits sum.splits)
        have req2: "api_request (snd ?ref) path options hs = api_request st path options hs" for hs
          by (simp add: api_request_def API_BASE_def as_session_def)
        show ?thesis
          using Response True ev ref req2
          by (cases ?ref)
             (simp add: request_unfold Let_def split: fetch_outcome.splits sum.splits)
      qed
    qed
  qed
qed

end
